theory Spec2Isabelle
  imports Main "HOL-Library.Sublist" "HOL-Library.AList"
begin

section \<open>Python strings\<close>

text \<open>
  A Python string is a sequence of code points; here a string is a list of characters,
  each a code point below 256. On these, \<^verbatim>\<open>str.isspace\<close> holds for TAB, LF, VT, FF, CR,
  the four separators FS, GS, RS, US, the blank, NEL (U+0085) and the no-break space
  (U+00A0); \<^verbatim>\<open>str.isdigit\<close> holds for the decimal digits 0 to 9 and for the superscript
  digits two, three and one (U+00B2, U+00B3, U+00B9); \<^verbatim>\<open>str.isdecimal\<close> holds for 0 to 9
  only.
\<close>

definition isspace :: "char \<Rightarrow> bool" where
  "isspace c = (c \<in> set [CHR 0x09, CHR 0x0A, CHR 0x0B, CHR 0x0C, CHR 0x0D,
                          CHR 0x1C, CHR 0x1D, CHR 0x1E, CHR 0x1F, CHR 0x20,
                          CHR 0x85, CHR 0xA0])"

definition isdecimal :: "char \<Rightarrow> bool" where
  "isdecimal c = (c \<in> set ''0123456789'')"

definition isdigit :: "char \<Rightarrow> bool" where
  "isdigit c = (isdecimal c \<or> c \<in> set [CHR 0xB2, CHR 0xB3, CHR 0xB9])"

text \<open>\<^verbatim>\<open>s.strip()\<close>: leading and trailing white space removed.\<close>

definition strip :: "string \<Rightarrow> string" where
  "strip s = rev (dropWhile isspace (rev (dropWhile isspace s)))"

text \<open>
  \<^verbatim>\<open>s.split()\<close> with no separator: the maximal runs of characters that are not white
  space, in order. The first argument is the run being read.
\<close>

fun split_ws_acc :: "string \<Rightarrow> string \<Rightarrow> string list" where
  "split_ws_acc cur [] = (if cur = [] then [] else [cur])"
| "split_ws_acc cur (c # cs) =
     (if isspace c
      then (if cur = [] then split_ws_acc [] cs else cur # split_ws_acc [] cs)
      else split_ws_acc (cur @ [c]) cs)"

definition split_ws :: "string \<Rightarrow> string list" where
  "split_ws s = split_ws_acc [] s"

text \<open>\<^verbatim>\<open>s.startswith(p)\<close> is \<^const>\<open>prefix\<close>; \<^verbatim>\<open>sub in s\<close> is a search for a position
  where \<open>sub\<close> is a prefix of the rest.\<close>

fun str_contains :: "string \<Rightarrow> string \<Rightarrow> bool" where
  "str_contains sub [] = (sub = [])"
| "str_contains sub (c # cs) = (prefix sub (c # cs) \<or> str_contains sub cs)"

text \<open>\<^verbatim>\<open>s.split(sep)\<close> for a one-character separator: always at least one piece.\<close>

fun split_char_acc :: "char \<Rightarrow> string \<Rightarrow> string \<Rightarrow> string list" where
  "split_char_acc sep cur [] = [cur]"
| "split_char_acc sep cur (c # cs) =
     (if c = sep then cur # split_char_acc sep [] cs
      else split_char_acc sep (cur @ [c]) cs)"

definition split_char :: "char \<Rightarrow> string \<Rightarrow> string list" where
  "split_char sep s = split_char_acc sep [] s"

text \<open>
  \<^verbatim>\<open>s.split(sep, 1)\<close> for a non-empty separator: the text before and after the first
  occurrence of \<open>sep\<close>, or the whole string alone when there is none.
\<close>

fun partition_first :: "string \<Rightarrow> string \<Rightarrow> (string \<times> string) option" where
  "partition_first sep [] = (if sep = [] then Some ([], []) else None)"
| "partition_first sep (c # cs) =
     (if prefix sep (c # cs) then Some ([], drop (length sep) (c # cs))
      else (case partition_first sep cs of
              None \<Rightarrow> None
            | Some (before, after) \<Rightarrow> Some (c # before, after)))"

definition split_once :: "string \<Rightarrow> string \<Rightarrow> string list" where
  "split_once sep s =
     (case partition_first sep s of None \<Rightarrow> [s] | Some (before, after) \<Rightarrow> [before, after])"

text \<open>\<^verbatim>\<open>s.lower()\<close>: the capital letters A to Z and U+00C0 to U+00DE, the
  multiplication sign U+00D7 apart, go 32 places up; every other character stays.\<close>

definition lower_char :: "char \<Rightarrow> char" where
  "lower_char c =
     (let n = (of_char c :: nat)
      in if (65 \<le> n \<and> n \<le> 90) \<or> (192 \<le> n \<and> n \<le> 222 \<and> n \<noteq> 215)
         then char_of (n + 32) else c)"

definition lower :: "string \<Rightarrow> string" where
  "lower s = map lower_char s"

section \<open>Values returned by the tools\<close>

text \<open>
  The tools return dictionaries whose keys vary from branch to branch. A dictionary
  literal is the list of its items in the order the source writes them.
\<close>

datatype pyval =
    B bool
  | I int
  | S string
  | L "pyval list"
  | D "(string \<times> pyval) list"

type_synonym pydict = "(string \<times> pyval) list"

section \<open>ShellExecutor (src/agents/tools.py)\<close>

record ShellExecutor =
  allowed_commands :: "string list"
  blocked_commands :: "string list"
  enable_sandbox :: bool

text \<open>
  \<^verbatim>\<open>__init__\<close>: \<^verbatim>\<open>x or default\<close> takes the default for \<^verbatim>\<open>None\<close> and for the empty list.
  The sandbox is enabled only if it was asked for, the docker module was importable and
  \<^verbatim>\<open>docker.from_env()\<close> did not raise.
\<close>

definition default_allowed :: "string list" where
  "default_allowed = [''ls'', ''cat'', ''pwd'', ''echo'', ''grep'', ''find'']"

definition default_blocked :: "string list" where
  "default_blocked = [''rm'', ''mkfs'', ''dd'', ''>'', ''format'']"

definition or_default :: "string list option \<Rightarrow> string list \<Rightarrow> string list" where
  "or_default given dflt = (case given of None \<Rightarrow> dflt | Some xs \<Rightarrow> (if xs = [] then dflt else xs))"

definition ShellExecutor_init ::
  "string list option \<Rightarrow> string list option \<Rightarrow> bool \<Rightarrow> bool \<Rightarrow> bool \<Rightarrow> ShellExecutor" where
  "ShellExecutor_init allowed blocked sandbox docker_available from_env_ok =
     \<lparr> allowed_commands = or_default allowed default_allowed,
       blocked_commands = or_default blocked default_blocked,
       enable_sandbox = ((sandbox \<and> docker_available) \<and> from_env_ok) \<rparr>"

text \<open>The loop over the block list of \<^verbatim>\<open>is_command_allowed\<close>: true when it returns early.\<close>

fun contains_blocked :: "string list \<Rightarrow> string \<Rightarrow> bool" where
  "contains_blocked [] command = False"
| "contains_blocked (blocked # rest) command =
     (if str_contains blocked command then True else contains_blocked rest command)"

definition is_command_allowed :: "ShellExecutor \<Rightarrow> string \<Rightarrow> bool" where
  "is_command_allowed self command =
     (let command_parts = split_ws (strip command) in
      if command_parts = [] then False
      else
        let base_command = hd command_parts in
        if contains_blocked (blocked_commands self) command then False
        else if allowed_commands self \<noteq> [] \<and> base_command \<notin> set (allowed_commands self)
        then False
        else True)"

text \<open>
  What the operating system answers when a command is run. \<^verbatim>\<open>subprocess.run\<close> either
  completes (return code, standard output, standard error), raises
  \<^verbatim>\<open>TimeoutExpired\<close> after the 60 seconds it was given, or raises something else.
  The docker call returns bytes that decode, bytes that do not, or raises.
\<close>

datatype proc_outcome =
    Completed int string string
  | TimeoutExpired
  | ProcRaised string

datatype docker_outcome =
    ContainerOutput string
  | UndecodableOutput
  | DockerRaised string

record shell_env =
  subprocess_run :: "string \<Rightarrow> proc_outcome"
  containers_run :: "string \<Rightarrow> docker_outcome"

text \<open>\<^verbatim>\<open>_run_local\<close>: only the timeout is handled here; any other exception leaves the
  function (\<open>Inl\<close>).\<close>

definition run_local :: "shell_env \<Rightarrow> string \<Rightarrow> string + pydict" where
  "run_local env command =
     (case subprocess_run env command of
        Completed returncode stdout stderr \<Rightarrow>
          Inr [(''success'', B (returncode = 0)), (''command'', S command),
               (''stdout'', S stdout), (''stderr'', S stderr), (''returncode'', I returncode)]
      | TimeoutExpired \<Rightarrow>
          Inr [(''success'', B False), (''command'', S command),
               (''error'', S ''Command execution timed out after 60 seconds'')]
      | ProcRaised e \<Rightarrow> Inl e)"

text \<open>\<^verbatim>\<open>_run_sandboxed\<close>: every exception is turned into a value.\<close>

definition run_sandboxed :: "shell_env \<Rightarrow> string \<Rightarrow> string + pydict" where
  "run_sandboxed env command =
     (case containers_run env command of
        ContainerOutput output \<Rightarrow>
          Inr [(''success'', B True), (''command'', S command),
               (''stdout'', S output), (''stderr'', S ''''), (''returncode'', I 0)]
      | UndecodableOutput \<Rightarrow>
          Inr [(''success'', B False), (''command'', S command),
               (''error'', S ''Failed to decode container output'')]
      | DockerRaised e \<Rightarrow>
          Inr [(''success'', B False), (''command'', S command),
               (''error'', S (''Error in Docker execution: '' @ e))])"

text \<open>The body of the \<^verbatim>\<open>try\<close> of \<^verbatim>\<open>run_command\<close>, then the function with its handler.\<close>

definition run_command_try :: "ShellExecutor \<Rightarrow> shell_env \<Rightarrow> string \<Rightarrow> string + pydict" where
  "run_command_try self env command =
     (if \<not> is_command_allowed self command
      then Inr [(''success'', B False), (''command'', S command),
                (''error'', S ''This command is not allowed for security reasons.'')]
      else if enable_sandbox self then run_sandboxed env command
      else run_local env command)"

definition run_command :: "ShellExecutor \<Rightarrow> shell_env \<Rightarrow> string \<Rightarrow> pydict" where
  "run_command self env command =
     (case run_command_try self env command of
        Inr result \<Rightarrow> result
      | Inl e \<Rightarrow> [(''success'', B False), (''command'', S command), (''error'', S e)])"

section \<open>Plan parsing (src/agents/orchestrator.py)\<close>

text \<open>A plan step is a dictionary with the keys description, subtasks and status.\<close>

record step =
  description :: string
  subtasks :: "string list"
  status :: string

text \<open>The three local variables of \<^verbatim>\<open>_parse_plan\<close>; \<^verbatim>\<open>None\<close> is \<open>None\<close>.\<close>

record parse_state =
  steps :: "step list"
  current_step :: "string option"
  current_subtasks :: "string list"

text \<open>
  Appending the open step, if there is one: the source does it at each header and once
  more after the loop.
\<close>

definition append_current :: "parse_state \<Rightarrow> step list" where
  "append_current st =
     (case current_step st of
        None \<Rightarrow> steps st
      | Some d \<Rightarrow>
          steps st @ [\<lparr>description = d, subtasks = current_subtasks st, status = ''pending''\<rparr>])"

text \<open>The body of the loop over the lines; \<^verbatim>\<open>line[1:]\<close> is \<open>tl line\<close>.\<close>

definition parse_line :: "parse_state \<Rightarrow> string \<Rightarrow> parse_state" where
  "parse_line st raw =
     (let line = strip raw in
      if line = [] then st
      else if isdigit (hd line) \<and> str_contains ''. '' line then
        (let st1 = st\<lparr>steps := append_current st\<rparr>;
             step_parts = split_once ''. '' line
         in if length step_parts = 2
            then st1\<lparr>current_step := Some (step_parts ! 1), current_subtasks := []\<rparr>
            else st1)
      else if prefix ''-'' line \<or> prefix ''*'' line then
        (let subtask = strip (tl line) in
         if subtask \<noteq> [] \<and> current_step st \<noteq> None
         then st\<lparr>current_subtasks := current_subtasks st @ [subtask]\<rparr>
         else st)
      else st)"

fun parse_lines :: "parse_state \<Rightarrow> string list \<Rightarrow> parse_state" where
  "parse_lines st [] = st"
| "parse_lines st (raw # rest) = parse_lines (parse_line st raw) rest"

definition parse_plan :: "string \<Rightarrow> step list" where
  "parse_plan plan_text =
     (let lines = split_char (CHR 0x0A) (strip plan_text);
          st = parse_lines \<lparr>steps = [], current_step = None, current_subtasks = []\<rparr> lines
      in append_current st)"

section \<open>Plan execution (src/agents/orchestrator.py)\<close>

text \<open>
  A tool call and the record of its execution (keys tool, args, success, result), the
  result of a step (keys execution_text, tool_executions, status, summary) and the entry
  that \<^verbatim>\<open>execute_plan\<close> records for a step (keys step_num, description, result, status).
  Field names carry a prefix where two dictionaries share a key.
\<close>

record tool_call =
  tool :: string
  args :: pydict

record tool_execution =
  te_tool :: string
  te_args :: pydict
  success :: bool
  te_result :: string

text \<open>\<^verbatim>\<open>sep.join(xs)\<close> and \<^verbatim>\<open>str(n)\<close> for a natural number.\<close>

fun str_join :: "string \<Rightarrow> string list \<Rightarrow> string" where
  "str_join sep [] = []"
| "str_join sep [x] = x"
| "str_join sep (x # y # zs) = x @ sep @ str_join sep (y # zs)"

definition digit_char :: "nat \<Rightarrow> char" where
  "digit_char d = char_of (48 + d)"

function str_nat :: "nat \<Rightarrow> string" where
  "str_nat n = (if n < 10 then [digit_char n] else str_nat (n div 10) @ [digit_char (n mod 10)])"
  by pat_completeness auto
termination
  by (relation "measure id") auto

text \<open>\<^verbatim>\<open>_simulate_tool_execution\<close>: the four tests on the lowered text, then the loop
  over the calls found, which records a success for each.\<close>

definition find_tool_calls :: "string \<Rightarrow> tool_call list" where
  "find_tool_calls execution_text =
     (if str_contains ''web_scraper'' (lower execution_text)
      then [\<lparr>tool = ''web_scraper'', args = [(''url'', S ''https://example.com'')]\<rparr>] else [])
     @ (if str_contains ''shell_command'' (lower execution_text)
        then [\<lparr>tool = ''shell_command'', args = [(''command'', S ''ls -la'')]\<rparr>] else [])
     @ (if str_contains ''file_manager'' (lower execution_text)
        then [\<lparr>tool = ''file_manager'',
               args = [(''action'', S ''read''), (''path'', S ''example.txt'')]\<rparr>] else [])
     @ (if str_contains ''web_search'' (lower execution_text)
        then [\<lparr>tool = ''web_search'', args = [(''query'', S ''example search query'')]\<rparr>]
        else [])"

fun simulate_calls :: "tool_call list \<Rightarrow> bool \<Rightarrow> tool_execution list" where
  "simulate_calls [] yolo_mode = []"
| "simulate_calls (call # rest) yolo_mode =
     \<lparr>te_tool = tool call, te_args = args call, success = True,
      te_result = ''Simulated result for '' @ tool call\<rparr> # simulate_calls rest yolo_mode"

definition simulate_tool_execution :: "string \<Rightarrow> bool \<Rightarrow> tool_execution list" where
  "simulate_tool_execution execution_text yolo_mode =
     simulate_calls (find_tool_calls execution_text) yolo_mode"

text \<open>\<^verbatim>\<open>_generate_summary\<close>.\<close>

definition generate_summary :: "string \<Rightarrow> tool_execution list \<Rightarrow> string" where
  "generate_summary execution_text tes =
     (let success_count = length (filter success tes);
          failed_count = length tes - success_count;
          st = (if failed_count = 0 then ''All tools executed successfully.''
                else if success_count = 0 then ''All tool executions failed.''
                else str_nat success_count @ '' tools succeeded, '' @ str_nat failed_count
                     @ '' tools failed.'')
      in ''Step execution: '' @ st @ '' Tools used: '' @ str_join '', '' (map te_tool tes) @ ''.'')"

text \<open>The status expression of \<^verbatim>\<open>execute_step\<close>:
  \<^verbatim>\<open>"completed" if all(te["success"] for te in tool_executions) else "failed"\<close>.\<close>

definition step_status :: "tool_execution list \<Rightarrow> string" where
  "step_status tes = (if list_all success tes then ''completed'' else ''failed'')"

record step_result =
  execution_text :: string
  tool_executions :: "tool_execution list"
  sr_status :: string
  summary :: string

record step_entry =
  step_num :: nat
  entry_description :: string
  entry_result :: step_result
  entry_status :: string

text \<open>The dictionary returned by \<^verbatim>\<open>execute_plan\<close>; the three time stamps, floating
  point readings of the clock, are left out.\<close>

record plan_results =
  result_steps :: "step_entry list"
  overall_status :: string

text \<open>
  The orchestrator's state that \<^verbatim>\<open>execute_step\<close> reads and writes is the dictionary
  \<^verbatim>\<open>execution_results\<close>, from step numbers to step results, kept in insertion order.
  The completion service is a function from the prompt to the text of its answer (the
  client answers the empty text when the request fails).
\<close>

type_synonym execution_results = "(nat \<times> step_result) list"

definition tools_desc :: string where
  "tools_desc = str_join [CHR 0x0A]
     [''- web_scraper: Scrapes content from a specified URL'',
      ''- shell_command: Executes a shell command in a sandboxed environment'',
      ''- file_manager: Creates, reads, updates, or deletes files in the working directory'',
      ''- web_search: Performs a web search for the provided query'']"

definition EXECUTION_TEMPLATE_format :: "string \<Rightarrow> string \<Rightarrow> string \<Rightarrow> string" where
  "EXECUTION_TEMPLATE_format task_step context tools = str_join [CHR 0x0A]
     [[],
      ''You are an expert AI execution agent responsible for carrying out specific tasks.'',
      [],
      ''TASK STEP: '' @ task_step,
      ''OVERALL CONTEXT: '' @ context,
      [],
      ''YOUR GOAL: Execute this specific step as effectively as possible, using the tools available to you.'',
      [],
      ''AVAILABLE TOOLS: '' @ tools,
      [],
      ''INSTRUCTIONS:'',
      ''1. Consider which tool is most appropriate for this specific step'',
      ''2. Execute the step with precision'',
      ''3. Report back with the results, including any relevant information retrieved'',
      ''4. If you encounter any errors or issues, try an alternative approach'',
      ''5. If you require user input or authentication, request it clearly'',
      [],
      ''Execute this step now.'',
      []]"

text \<open>The digest of the earlier steps: the loop over \<^verbatim>\<open>range(1, step_num)\<close>.\<close>

definition prev_results :: "execution_results \<Rightarrow> nat \<Rightarrow> string list" where
  "prev_results results n =
     concat (map (\<lambda>prev_num.
        (case map_of results prev_num of
           None \<Rightarrow> []
         | Some prev_result \<Rightarrow>
             [''Step '' @ str_nat prev_num @ '' result: '' @ summary prev_result]))
       [1 ..< n])"

definition build_context :: "execution_results \<Rightarrow> nat \<Rightarrow> nat \<Rightarrow> string" where
  "build_context results n total_steps =
     (let context = ''This is step '' @ str_nat n @ '' of '' @ str_nat total_steps
                    @ '' in the plan.''
      in if n > 1 \<and> results \<noteq> [] \<and> prev_results results n \<noteq> []
         then context @ [CHR 0x0A, CHR 0x0A] @ ''Previous step results:'' @ [CHR 0x0A]
              @ str_join [CHR 0x0A] (prev_results results n)
         else context)"

definition execute_step ::
  "(string \<Rightarrow> string) \<Rightarrow> execution_results \<Rightarrow> step \<Rightarrow> nat \<Rightarrow> nat \<Rightarrow> bool
     \<Rightarrow> step_result \<times> execution_results" where
  "execute_step generate_completion results stp n total_steps yolo_mode =
     (let context = build_context results n total_steps;
          execution_prompt = EXECUTION_TEMPLATE_format
            (description stp @ [CHR 0x0A, CHR 0x0A] @ ''Subtasks:'' @ [CHR 0x0A]
               @ str_join [CHR 0x0A] (map (\<lambda>st. ''- '' @ st) (subtasks stp)))
            context tools_desc;
          text = generate_completion execution_prompt;
          tes = simulate_tool_execution text yolo_mode;
          result = \<lparr>execution_text = text, tool_executions = tes,
                    sr_status = step_status tes, summary = generate_summary text tes\<rparr>
      in (result, AList.update n result results))"

text \<open>
  The loop of \<^verbatim>\<open>execute_plan\<close> over \<^verbatim>\<open>enumerate(plan)\<close>. It calls \<^verbatim>\<open>self.execute_step\<close>;
  the loop is written over any step executor \<open>exec\<close> with its own state, so that it can be
  run with executors whose steps fail. It returns the entries recorded, the plan with
  the statuses written back, whether it left through \<^verbatim>\<open>break\<close>, and the state.
\<close>

fun execute_plan_loop ::
  "('s \<Rightarrow> step \<Rightarrow> nat \<Rightarrow> nat \<Rightarrow> bool \<Rightarrow> step_result \<times> 's) \<Rightarrow> nat \<Rightarrow> bool \<Rightarrow> nat \<Rightarrow> step list \<Rightarrow> 's
     \<Rightarrow> step_entry list \<times> step list \<times> bool \<times> 's" where
  "execute_plan_loop exec total_steps yolo_mode i [] s = ([], [], False, s)"
| "execute_plan_loop exec total_steps yolo_mode i (stp # rest) s =
     (let n = i + 1;
          (res, s1) = exec s stp n total_steps yolo_mode;
          entry = \<lparr>step_num = n, entry_description = description stp,
                   entry_result = res, entry_status = sr_status res\<rparr>;
          stp1 = stp\<lparr>status := sr_status res\<rparr>
      in if sr_status res = ''failed'' \<and> \<not> yolo_mode
         then ([entry], stp1 # rest, True, s1)
         else (case execute_plan_loop exec total_steps yolo_mode (i + 1) rest s1 of
                 (entries, plan1, stopped, s2) \<Rightarrow> (entry # entries, stp1 # plan1, stopped, s2)))"

definition execute_plan_with ::
  "('s \<Rightarrow> step \<Rightarrow> nat \<Rightarrow> nat \<Rightarrow> bool \<Rightarrow> step_result \<times> 's) \<Rightarrow> step list \<Rightarrow> bool \<Rightarrow> 's
     \<Rightarrow> plan_results \<times> step list \<times> 's" where
  "execute_plan_with exec plan yolo_mode s =
     (case execute_plan_loop exec (length plan) yolo_mode 0 plan s of
        (entries, plan1, stopped, s1) \<Rightarrow>
          (let overall = (if stopped then ''failed'' else ''in_progress'');
               overall1 = (if overall \<noteq> ''failed'' then ''completed'' else overall)
           in (\<lparr>result_steps = entries, overall_status = overall1\<rparr>, plan1, s1)))"

definition execute_plan ::
  "(string \<Rightarrow> string) \<Rightarrow> step list \<Rightarrow> bool \<Rightarrow> execution_results
     \<Rightarrow> plan_results \<times> step list \<times> execution_results" where
  "execute_plan generate_completion plan yolo_mode results =
     execute_plan_with (execute_step generate_completion) plan yolo_mode results"

text \<open>
  The run of a plan in the words of the specification, to compare the loop with. Every
  step is executed in plan order, with its ordinal and the number of steps, on the state
  its predecessor left: \<open>run_in_order\<close> lists, step by step, the result and the state
  after it. \<open>steps_executed\<close> is the number of steps taken before iteration ends: all of
  them in YOLO mode, and otherwise those up to and including the first whose status is
  failed.
\<close>

fun run_in_order ::
  "('s \<Rightarrow> step \<Rightarrow> nat \<Rightarrow> nat \<Rightarrow> bool \<Rightarrow> step_result \<times> 's) \<Rightarrow> nat \<Rightarrow> bool \<Rightarrow> nat \<Rightarrow> step list \<Rightarrow> 's
     \<Rightarrow> (step_result \<times> 's) list" where
  "run_in_order exec total_steps yolo_mode i [] s = []"
| "run_in_order exec total_steps yolo_mode i (stp # rest) s =
     exec s stp (i + 1) total_steps yolo_mode
       # run_in_order exec total_steps yolo_mode (i + 1) rest
           (snd (exec s stp (i + 1) total_steps yolo_mode))"

definition steps_executed :: "bool \<Rightarrow> (step_result \<times> 's) list \<Rightarrow> nat" where
  "steps_executed yolo_mode outs =
     (if yolo_mode then length outs
      else min (length outs)
             (Suc (length (takeWhile (\<lambda>out. sr_status (fst out) \<noteq> ''failed'') outs))))"

section \<open>Paths and the file system\<close>

text \<open>
  \<^verbatim>\<open>os.path.join\<close> (two arguments), \<^verbatim>\<open>os.path.normpath\<close> and \<^verbatim>\<open>os.path.dirname\<close> of
  Python's \<^verbatim>\<open>posixpath\<close>. \<open>norm_comps\<close> is the loop of \<^verbatim>\<open>normpath\<close> over the components,
  with \<open>new_comps\<close> as its second argument.
\<close>

definition os_path_join :: "string \<Rightarrow> string \<Rightarrow> string" where
  "os_path_join a b =
     (if prefix ''/'' b then b
      else if a = [] \<or> suffix ''/'' a then a @ b
      else a @ ''/'' @ b)"

fun norm_comps :: "bool \<Rightarrow> string list \<Rightarrow> string list \<Rightarrow> string list" where
  "norm_comps initial_slashes new_comps [] = new_comps"
| "norm_comps initial_slashes new_comps (name # rest) =
     (if name = [] \<or> name = ''.'' then norm_comps initial_slashes new_comps rest
      else if name \<noteq> ''..'' \<or> (\<not> initial_slashes \<and> new_comps = [])
              \<or> (new_comps \<noteq> [] \<and> last new_comps = ''..'')
      then norm_comps initial_slashes (new_comps @ [name]) rest
      else if new_comps \<noteq> [] then norm_comps initial_slashes (butlast new_comps) rest
      else norm_comps initial_slashes new_comps rest)"

definition normpath :: "string \<Rightarrow> string" where
  "normpath p =
     (if p = [] then ''.''
      else
        let initial_slashes =
              (if prefix ''/'' p
               then (if prefix ''//'' p \<and> \<not> prefix ''///'' p then 2 else 1)
               else (0::nat));
            comps = norm_comps (initial_slashes \<noteq> 0) [] (split_char CHR ''/'' p);
            joined = replicate initial_slashes CHR ''/'' @ str_join ''/'' comps
        in if joined = [] then ''.'' else joined)"

definition rstrip_slash :: "string \<Rightarrow> string" where
  "rstrip_slash s = rev (dropWhile (\<lambda>c. c = CHR ''/'') (rev s))"

definition os_path_dirname :: "string \<Rightarrow> string" where
  "os_path_dirname p =
     (let head = rev (dropWhile (\<lambda>c. c \<noteq> CHR ''/'') (rev p))
      in if head \<noteq> [] \<and> head \<noteq> replicate (length head) CHR ''/'' then rstrip_slash head
         else head)"

text \<open>
  The file system: a table from absolute paths, as lists of names, to files (with their
  text) and directories, and the current directory. The root directory always exists.
  There are no symbolic links, no permissions and no input or output faults: a call fails
  only for what the table holds.
\<close>

datatype node = File string | Dir

record filesystem =
  nodes :: "(string list \<times> node) list"
  cwd :: "string list"

definition node_at :: "filesystem \<Rightarrow> string list \<Rightarrow> node option" where
  "node_at fs k = (if k = [] then Some Dir else map_of (nodes fs) k)"

text \<open>
  Path resolution walks the components from the root or the current directory; the
  place where a component is looked up must be a directory. The last component need not
  exist. The empty path does not resolve.
\<close>

fun walk :: "filesystem \<Rightarrow> string list \<Rightarrow> string list \<Rightarrow> string list option" where
  "walk fs cur [] = Some cur"
| "walk fs cur (c # cs) =
     (if node_at fs cur \<noteq> Some Dir then None
      else if c = [] \<or> c = ''.'' then walk fs cur cs
      else if c = ''..'' then walk fs (butlast cur) cs
      else walk fs (cur @ [c]) cs)"

definition resolve :: "filesystem \<Rightarrow> string \<Rightarrow> string list option" where
  "resolve fs p =
     (if p = [] then None
      else walk fs (if prefix ''/'' p then [] else cwd fs) (split_char CHR ''/'' p))"

definition lookup_path :: "filesystem \<Rightarrow> string \<Rightarrow> node option" where
  "lookup_path fs p = (case resolve fs p of None \<Rightarrow> None | Some k \<Rightarrow> node_at fs k)"

definition os_getcwd :: "filesystem \<Rightarrow> string" where
  "os_getcwd fs = ''/'' @ str_join ''/'' (cwd fs)"

definition os_path_exists :: "filesystem \<Rightarrow> string \<Rightarrow> bool" where
  "os_path_exists fs p = (lookup_path fs p \<noteq> None)"

definition os_path_isdir :: "filesystem \<Rightarrow> string \<Rightarrow> bool" where
  "os_path_isdir fs p = (lookup_path fs p = Some Dir)"

text \<open>The calls that can raise return the text of the exception on the left.\<close>

definition no_such_file :: "string \<Rightarrow> string" where
  "no_such_file p = ''[Errno 2] No such file or directory: '' @ p"

definition is_a_directory :: "string \<Rightarrow> string" where
  "is_a_directory p = ''[Errno 21] Is a directory: '' @ p"

definition not_a_directory :: "string \<Rightarrow> string" where
  "not_a_directory p = ''[Errno 20] Not a directory: '' @ p"

definition file_exists :: "string \<Rightarrow> string" where
  "file_exists p = ''[Errno 17] File exists: '' @ p"

definition entries_of :: "filesystem \<Rightarrow> string list \<Rightarrow> string list" where
  "entries_of fs k =
     map last (filter (\<lambda>k'. k' \<noteq> [] \<and> butlast k' = k) (remdups (map fst (nodes fs))))"

definition os_listdir :: "filesystem \<Rightarrow> string \<Rightarrow> string + string list" where
  "os_listdir fs p =
     (case resolve fs p of
        None \<Rightarrow> Inl (no_such_file p)
      | Some k \<Rightarrow>
          (case node_at fs k of
             None \<Rightarrow> Inl (no_such_file p)
           | Some (File c) \<Rightarrow> Inl (not_a_directory p)
           | Some Dir \<Rightarrow> Inr (entries_of fs k)))"

definition open_read :: "filesystem \<Rightarrow> string \<Rightarrow> string + string" where
  "open_read fs p =
     (case lookup_path fs p of
        None \<Rightarrow> Inl (no_such_file p)
      | Some Dir \<Rightarrow> Inl (is_a_directory p)
      | Some (File c) \<Rightarrow> Inr c)"

text \<open>Opening with mode \<^verbatim>\<open>w\<close> (\<open>appending = False\<close>) or \<^verbatim>\<open>a\<close>, writing and closing.\<close>

definition open_write :: "bool \<Rightarrow> filesystem \<Rightarrow> string \<Rightarrow> string \<Rightarrow> string + filesystem" where
  "open_write appending fs p content =
     (case resolve fs p of
        None \<Rightarrow> Inl (no_such_file p)
      | Some k \<Rightarrow>
          (case node_at fs k of
             Some Dir \<Rightarrow> Inl (is_a_directory p)
           | Some (File c) \<Rightarrow>
               Inr (fs\<lparr>nodes := AList.update k (File (if appending then c @ content else content))
                                 (nodes fs)\<rparr>)
           | None \<Rightarrow> Inr (fs\<lparr>nodes := AList.update k (File content) (nodes fs)\<rparr>)))"

definition os_unlink :: "filesystem \<Rightarrow> string \<Rightarrow> string + filesystem" where
  "os_unlink fs p =
     (case resolve fs p of
        None \<Rightarrow> Inl (no_such_file p)
      | Some k \<Rightarrow>
          (case node_at fs k of
             None \<Rightarrow> Inl (no_such_file p)
           | Some Dir \<Rightarrow> Inl (is_a_directory p)
           | Some (File c) \<Rightarrow> Inr (fs\<lparr>nodes := AList.delete k (nodes fs)\<rparr>)))"

text \<open>
  \<^verbatim>\<open>os.makedirs(p, exist_ok=True)\<close>: every directory on the way that is missing is
  created; it raises when a name on the way is a file. What was created before the
  exception stays.
\<close>

fun make_along :: "filesystem \<Rightarrow> string list \<Rightarrow> string list \<Rightarrow> bool \<times> filesystem" where
  "make_along fs cur [] =
     (case node_at fs cur of
        None \<Rightarrow> (True, fs\<lparr>nodes := AList.update cur Dir (nodes fs)\<rparr>)
      | Some Dir \<Rightarrow> (True, fs)
      | Some (File c) \<Rightarrow> (False, fs))"
| "make_along fs cur (c # cs) =
     (case node_at fs cur of
        Some (File x) \<Rightarrow> (False, fs)
      | other \<Rightarrow>
          (let fs1 = (if other = None then fs\<lparr>nodes := AList.update cur Dir (nodes fs)\<rparr> else fs)
           in if c = [] \<or> c = ''.'' then make_along fs1 cur cs
              else if c = ''..'' then make_along fs1 (butlast cur) cs
              else make_along fs1 (cur @ [c]) cs))"

definition os_makedirs :: "filesystem \<Rightarrow> string \<Rightarrow> string option \<times> filesystem" where
  "os_makedirs fs p =
     (if p = [] then (Some (no_such_file p), fs)
      else
        (case make_along fs (if prefix ''/'' p then [] else cwd fs) (split_char CHR ''/'' p) of
           (True, fs1) \<Rightarrow> (None, fs1)
         | (False, fs1) \<Rightarrow> (Some (file_exists p), fs1)))"

text \<open>\<^verbatim>\<open>os.stat(p).st_size\<close>; a directory has the size of one block.\<close>

definition os_stat_size :: "filesystem \<Rightarrow> string \<Rightarrow> string + nat" where
  "os_stat_size fs p =
     (case lookup_path fs p of
        None \<Rightarrow> Inl (no_such_file p)
      | Some Dir \<Rightarrow> Inr 4096
      | Some (File c) \<Rightarrow> Inr (length c))"

section \<open>FileManager (src/agents/tools.py)\<close>

text \<open>\<^verbatim>\<open>__init__\<close>: \<^verbatim>\<open>working_dir or os.getcwd()\<close>.\<close>

definition FileManager_init :: "filesystem \<Rightarrow> string option \<Rightarrow> string" where
  "FileManager_init fs working_dir =
     (case working_dir of
        None \<Rightarrow> os_getcwd fs
      | Some w \<Rightarrow> (if w = [] then os_getcwd fs else w))"

text \<open>
  The calls that \<open>manage_file\<close> makes to the file system, each with the path it is given.
  Every branch returns the value it returns or the exception it raises, the file system
  afterwards, and the calls made, in order.
\<close>

datatype fs_call =
    Exists string
  | IsDir string
  | ListDir string
  | OpenRead string
  | OpenWrite string
  | OpenAppend string
  | MakeDirs string
  | Unlink string
  | Stat string

type_synonym outcome = "(string + pydict) \<times> filesystem \<times> fs_call list"

definition file_read :: "filesystem \<Rightarrow> string \<Rightarrow> string \<Rightarrow> outcome" where
  "file_read fs path full_path =
     (if \<not> os_path_exists fs full_path
      then (Inr [(''success'', B False), (''path'', S path), (''error'', S ''File does not exist'')],
            fs, [Exists full_path])
      else if os_path_isdir fs full_path
      then (case os_listdir fs full_path of
              Inl e \<Rightarrow> (Inl e, fs, [Exists full_path, IsDir full_path, ListDir full_path])
            | Inr contents \<Rightarrow>
                (Inr [(''success'', B True), (''path'', S path), (''is_directory'', B True),
                      (''contents'', L (map S contents))],
                 fs, [Exists full_path, IsDir full_path, ListDir full_path]))
      else (case open_read fs full_path of
              Inl e \<Rightarrow> (Inl e, fs, [Exists full_path, IsDir full_path, OpenRead full_path])
            | Inr file_content \<Rightarrow>
                (Inr [(''success'', B True), (''path'', S path), (''is_directory'', B False),
                      (''content'', S file_content)],
                 fs, [Exists full_path, IsDir full_path, OpenRead full_path])))"

text \<open>The branches \<^verbatim>\<open>write\<close> (\<open>appending = False\<close>) and \<^verbatim>\<open>append\<close>, which differ in the mode
  of \<^verbatim>\<open>open\<close> and in the action reported.\<close>

definition file_write :: "bool \<Rightarrow> filesystem \<Rightarrow> string \<Rightarrow> string \<Rightarrow> string option \<Rightarrow> outcome" where
  "file_write appending fs path full_path content =
     (case os_makedirs fs (os_path_dirname full_path) of
        (Some e, fs1) \<Rightarrow> (Inl e, fs1, [MakeDirs (os_path_dirname full_path)])
      | (None, fs1) \<Rightarrow>
          (let calls = [MakeDirs (os_path_dirname full_path),
                        (if appending then OpenAppend full_path else OpenWrite full_path)]
           in case open_write appending fs1 full_path (case content of None \<Rightarrow> [] | Some c \<Rightarrow> c) of
                Inl e \<Rightarrow> (Inl e, fs1, calls)
              | Inr fs2 \<Rightarrow>
                  (Inr [(''success'', B True), (''path'', S path),
                        (''action'', S (if appending then ''append'' else ''write''))],
                   fs2, calls)))"

definition file_delete :: "filesystem \<Rightarrow> string \<Rightarrow> string \<Rightarrow> outcome" where
  "file_delete fs path full_path =
     (if \<not> os_path_exists fs full_path
      then (Inr [(''success'', B False), (''path'', S path), (''error'', S ''File does not exist'')],
            fs, [Exists full_path])
      else if os_path_isdir fs full_path
      then (Inr [(''success'', B False), (''path'', S path),
                 (''error'', S ''Cannot delete directories'')],
            fs, [Exists full_path, IsDir full_path])
      else (case os_unlink fs full_path of
              Inl e \<Rightarrow> (Inl e, fs, [Exists full_path, IsDir full_path, Unlink full_path])
            | Inr fs1 \<Rightarrow>
                (Inr [(''success'', B True), (''path'', S path), (''action'', S ''delete'')],
                 fs1, [Exists full_path, IsDir full_path, Unlink full_path])))"

text \<open>The loop of the branch \<^verbatim>\<open>list\<close> over the entries of the directory; the
  modification time, a floating point reading, is left out of the entry.\<close>

fun list_items :: "filesystem \<Rightarrow> string \<Rightarrow> string list \<Rightarrow> (string + pyval list) \<times> fs_call list" where
  "list_items fs full_path [] = (Inr [], [])"
| "list_items fs full_path (item # rest) =
     (let item_path = os_path_join full_path item in
      case os_stat_size fs item_path of
        Inl e \<Rightarrow> (Inl e, [Stat item_path])
      | Inr st_size \<Rightarrow>
          (let entry = D [(''name'', S item), (''is_directory'', B (os_path_isdir fs item_path)),
                          (''size'', I (int st_size))]
           in case list_items fs full_path rest of
                (Inl e, calls) \<Rightarrow> (Inl e, Stat item_path # IsDir item_path # calls)
              | (Inr contents, calls) \<Rightarrow>
                  (Inr (entry # contents), Stat item_path # IsDir item_path # calls)))"

definition file_list :: "filesystem \<Rightarrow> string \<Rightarrow> string \<Rightarrow> outcome" where
  "file_list fs path full_path =
     (if \<not> os_path_exists fs full_path
      then (Inr [(''success'', B False), (''path'', S path), (''error'', S ''Path does not exist'')],
            fs, [Exists full_path])
      else if \<not> os_path_isdir fs full_path
      then (Inr [(''success'', B False), (''path'', S path),
                 (''error'', S ''Path is not a directory'')],
            fs, [Exists full_path, IsDir full_path])
      else (case os_listdir fs full_path of
              Inl e \<Rightarrow> (Inl e, fs, [Exists full_path, IsDir full_path, ListDir full_path])
            | Inr items \<Rightarrow>
                (case list_items fs full_path items of
                   (Inl e, calls) \<Rightarrow>
                     (Inl e, fs, [Exists full_path, IsDir full_path, ListDir full_path] @ calls)
                 | (Inr contents, calls) \<Rightarrow>
                     (Inr [(''success'', B True), (''path'', S path), (''contents'', L contents)],
                      fs, [Exists full_path, IsDir full_path, ListDir full_path] @ calls))))"

text \<open>The body of the \<^verbatim>\<open>try\<close> of \<open>manage_file\<close>, then the function with its handler.\<close>

definition manage_file_try ::
  "string \<Rightarrow> filesystem \<Rightarrow> string \<Rightarrow> string \<Rightarrow> string option \<Rightarrow> outcome" where
  "manage_file_try working_dir fs action path content =
     (let full_path = os_path_join working_dir path in
      if \<not> prefix (normpath working_dir) (normpath full_path)
      then (Inr [(''success'', B False), (''path'', S path),
                 (''error'', S ''Path is outside the working directory'')], fs, [])
      else if action = ''read'' then file_read fs path full_path
      else if action = ''write'' then file_write False fs path full_path content
      else if action = ''append'' then file_write True fs path full_path content
      else if action = ''delete'' then file_delete fs path full_path
      else if action = ''list'' then file_list fs path full_path
      else (Inr [(''success'', B False), (''path'', S path),
                 (''error'', S (''Unknown action: '' @ action))], fs, []))"

definition manage_file ::
  "string \<Rightarrow> filesystem \<Rightarrow> string \<Rightarrow> string \<Rightarrow> string option
     \<Rightarrow> pydict \<times> filesystem \<times> fs_call list" where
  "manage_file working_dir fs action path content =
     (case manage_file_try working_dir fs action path content of
        (Inr result, fs1, calls) \<Rightarrow> (result, fs1, calls)
      | (Inl e, fs1, calls) \<Rightarrow>
          ([(''success'', B False), (''path'', S path), (''action'', S action), (''error'', S e)],
           fs1, calls))"

text \<open>
  A path lies within a root when, both normalised, the names of the root are the first
  names of the path.
\<close>

definition path_names :: "string \<Rightarrow> string list" where
  "path_names p = filter (\<lambda>c. c \<noteq> []) (split_char CHR ''/'' (normpath p))"

definition path_within :: "string \<Rightarrow> string \<Rightarrow> bool" where
  "path_within root p = prefix (path_names root) (path_names p)"

text \<open>A small file system on which the functions are run in the examples below.\<close>

definition example_fs :: filesystem where
  "example_fs =
     \<lparr>nodes = [([''home''], Dir), ([''home'', ''user''], Dir), ([''home'', ''user2''], Dir),
               ([''home'', ''user2'', ''secret''], File ''s3cret''),
               ([''home'', ''user'', ''notes.txt''], File ''hello''),
               ([''home'', ''user'', ''somedir''], Dir),
               ([''etc''], Dir), ([''etc'', ''passwd''], File ''root:x:0:0'')],
      cwd = [''home'', ''user'']\<rparr>"

section \<open>Properties of the command policy\<close>

lemma str_contains_iff: "str_contains sub s \<longleftrightarrow> (\<exists>ps ss. s = ps @ sub @ ss)"
proof (induction s)
  case Nil
  then show ?case by auto
next
  case (Cons c cs)
  show ?case
  proof
    assume "str_contains sub (c # cs)"
    then consider "prefix sub (c # cs)" | "str_contains sub cs" by auto
    then show "\<exists>ps ss. c # cs = ps @ sub @ ss"
    proof cases
      case 1
      then obtain ss where "c # cs = sub @ ss" by (auto simp: prefix_def)
      then have "c # cs = [] @ sub @ ss" by simp
      then show ?thesis by blast
    next
      case 2
      with Cons.IH obtain ps ss where "cs = ps @ sub @ ss" by blast
      then have "c # cs = (c # ps) @ sub @ ss" by simp
      then show ?thesis by blast
    qed
  next
    assume "\<exists>ps ss. c # cs = ps @ sub @ ss"
    then obtain ps ss where eq: "c # cs = ps @ sub @ ss" by blast
    show "str_contains sub (c # cs)"
    proof (cases ps)
      case Nil
      with eq have "prefix sub (c # cs)" by (simp add: prefix_def)
      then show ?thesis by simp
    next
      case (Cons p ps')
      with eq have "cs = ps' @ sub @ ss" by simp
      with Cons.IH have "str_contains sub cs" by blast
      then show ?thesis by simp
    qed
  qed
qed

lemma contains_blocked_iff:
  "contains_blocked bs command \<longleftrightarrow> (\<exists>b \<in> set bs. str_contains b command)"
  by (induction bs) auto

lemma split_ws_acc_Nil_iff: "split_ws_acc cur s = [] \<longleftrightarrow> cur = [] \<and> (\<forall>c \<in> set s. isspace c)"
  by (induction s arbitrary: cur) auto

lemma strip_all_space:
  assumes "\<forall>c \<in> set s. isspace c"
  shows "strip s = []"
proof -
  from assms have "dropWhile isspace s = []" by simp
  then show ?thesis by (simp only: strip_def rev.simps dropWhile.simps)
qed


lemma split_ws_all_space: "\<forall>c \<in> set s. isspace c \<Longrightarrow> split_ws (strip s) = []"
  by (simp add: strip_all_space split_ws_def)

text \<open>
  C2. Whenever an entry of the block list occurs somewhere in the command string, as a
  substring at any position, \<open>is_command_allowed\<close> returns false, whatever the allow list
  holds. The command \<^verbatim>\<open>rm -rf /tmp\<close> is refused even with \<^verbatim>\<open>rm\<close> on the allow list.
\<close>

theorem is_command_allowed_block_list_wins:
  assumes "\<exists>blocked \<in> set (blocked_commands self). \<exists>ps ss. command = ps @ blocked @ ss"
  shows "is_command_allowed self command = False"
proof -
  from assms have "contains_blocked (blocked_commands self) command"
    by (simp only: contains_blocked_iff str_contains_iff)
  then show ?thesis
    by (simp add: is_command_allowed_def Let_def)
qed

theorem is_command_allowed_block_list_wins_witness:
  "(\<exists>blocked \<in> set (blocked_commands
        \<lparr>allowed_commands = default_allowed @ [''rm''], blocked_commands = default_blocked,
         enable_sandbox = False\<rparr>).
      \<exists>ps ss. ''rm -rf /tmp'' = ps @ blocked @ ss)
   \<and> ''rm'' \<in> set (allowed_commands
        \<lparr>allowed_commands = default_allowed @ [''rm''], blocked_commands = default_blocked,
         enable_sandbox = False\<rparr>)
   \<and> is_command_allowed
        \<lparr>allowed_commands = default_allowed @ [''rm''], blocked_commands = default_blocked,
         enable_sandbox = False\<rparr> ''rm -rf /tmp'' = False"
proof -
  have occ: "''rm -rf /tmp'' = [] @ ''rm'' @ '' -rf /tmp''" by simp
  have h: "\<exists>blocked \<in> set (blocked_commands
        \<lparr>allowed_commands = default_allowed @ [''rm''], blocked_commands = default_blocked,
         enable_sandbox = False\<rparr>).
      \<exists>ps ss. ''rm -rf /tmp'' = ps @ blocked @ ss"
  proof (intro bexI [of _ "''rm''"] exI)
    show "''rm -rf /tmp'' = [] @ ''rm'' @ '' -rf /tmp''" by (rule occ)
    show "''rm'' \<in> set (blocked_commands
        \<lparr>allowed_commands = default_allowed @ [''rm''], blocked_commands = default_blocked,
         enable_sandbox = False\<rparr>)"
      by (simp add: default_blocked_def)
  qed
  show ?thesis
    using h is_command_allowed_block_list_wins [OF h] by (simp add: default_allowed_def)
qed

text \<open>
  C10. A \<open>ShellExecutor\<close> built without lists has the allow list ls, cat, pwd, echo,
  grep, find and the block list rm, mkfs, dd, \<^verbatim>\<open>>\<close>, format. Under it \<^verbatim>\<open>ls -la\<close> is
  allowed, \<^verbatim>\<open>scp file host:\<close> is not, and no command made of white space only (the
  empty command included) is allowed.
\<close>

theorem is_command_allowed_default_policy:
  "allowed_commands (ShellExecutor_init None None sandbox docker_available from_env_ok)
     = [''ls'', ''cat'', ''pwd'', ''echo'', ''grep'', ''find'']
   \<and> blocked_commands (ShellExecutor_init None None sandbox docker_available from_env_ok)
     = [''rm'', ''mkfs'', ''dd'', ''>'', ''format'']
   \<and> is_command_allowed (ShellExecutor_init None None sandbox docker_available from_env_ok)
        ''ls -la'' = True
   \<and> is_command_allowed (ShellExecutor_init None None sandbox docker_available from_env_ok)
        ''scp file host:'' = False
   \<and> (\<forall>command. (\<forall>c \<in> set command. isspace c) \<longrightarrow>
        is_command_allowed (ShellExecutor_init None None sandbox docker_available from_env_ok)
          command = False)"
proof -
  let ?self = "ShellExecutor_init None None sandbox docker_available from_env_ok"
  have a: "allowed_commands ?self = [''ls'', ''cat'', ''pwd'', ''echo'', ''grep'', ''find'']"
    by (simp add: ShellExecutor_init_def or_default_def default_allowed_def)
  have b: "blocked_commands ?self = [''rm'', ''mkfs'', ''dd'', ''>'', ''format'']"
    by (simp add: ShellExecutor_init_def or_default_def default_blocked_def)
  have ls_parts: "split_ws (strip ''ls -la'') = [''ls'', ''-la'']"
    by (simp add: split_ws_def strip_def isspace_def)
  have scp_parts: "split_ws (strip ''scp file host:'') = [''scp'', ''file'', ''host:'']"
    by (simp add: split_ws_def strip_def isspace_def)
  have ls: "is_command_allowed ?self ''ls -la'' = True"
    by (simp add: is_command_allowed_def a b ls_parts)
  have scp: "is_command_allowed ?self ''scp file host:'' = False"
    by (simp add: is_command_allowed_def a b scp_parts)
  have blank: "is_command_allowed ?self command = False"
    if "\<forall>c \<in> set command. isspace c" for command
    using split_ws_all_space [OF that] by (simp add: is_command_allowed_def)
  from a b ls scp blank show ?thesis by blast
qed

theorem is_command_allowed_default_policy_witness:
  "isspace (CHR 0x20) \<and> isspace (CHR 0x09)
   \<and> is_command_allowed (ShellExecutor_init None None True True True)
        [CHR 0x20, CHR 0x09, CHR 0x20] = False
   \<and> is_command_allowed (ShellExecutor_init None None True True True) [] = False"
proof -
  have h: "\<forall>c \<in> set [CHR 0x20, CHR 0x09, CHR 0x20]. isspace c"
    by (simp add: isspace_def)
  have e: "\<forall>c \<in> set ([] :: string). isspace c" by simp
  have sp: "isspace (CHR 0x20) \<and> isspace (CHR 0x09)" by (simp add: isspace_def)
  from is_command_allowed_default_policy [of True True True] h e sp show ?thesis by blast
qed

text \<open>
  C8. When the sandbox is off, the command passes the policy and \<^verbatim>\<open>subprocess.run\<close>
  raises \<^verbatim>\<open>TimeoutExpired\<close> at its 60 second limit, \<open>_run_local\<close> returns normally and
  \<open>run_command\<close> returns a dictionary with \<^verbatim>\<open>success\<close> false whose error text names the
  timeout; no exception reaches the caller.
\<close>

theorem run_command_timeout_is_a_value:
  assumes "is_command_allowed self command"
    and "\<not> enable_sandbox self"
    and "subprocess_run env command = TimeoutExpired"
  shows "run_local env command =
           Inr [(''success'', B False), (''command'', S command),
                (''error'', S ''Command execution timed out after 60 seconds'')]
         \<and> run_command_try self env command = run_local env command
         \<and> run_command self env command =
             [(''success'', B False), (''command'', S command),
              (''error'', S ''Command execution timed out after 60 seconds'')]"
  using assms by (simp add: run_command_def run_command_try_def run_local_def)

theorem run_command_timeout_is_a_value_witness:
  "is_command_allowed (ShellExecutor_init None None False False False) ''ls -la''
   \<and> \<not> enable_sandbox (ShellExecutor_init None None False False False)
   \<and> subprocess_run \<lparr>subprocess_run = (\<lambda>c. TimeoutExpired),
                      containers_run = (\<lambda>c. UndecodableOutput)\<rparr> ''ls -la'' = TimeoutExpired
   \<and> run_command (ShellExecutor_init None None False False False)
        \<lparr>subprocess_run = (\<lambda>c. TimeoutExpired), containers_run = (\<lambda>c. UndecodableOutput)\<rparr>
        ''ls -la'' =
       [(''success'', B False), (''command'', S ''ls -la''),
        (''error'', S ''Command execution timed out after 60 seconds'')]"
proof -
  let ?self = "ShellExecutor_init None None False False False"
  let ?env = "\<lparr>subprocess_run = (\<lambda>c. TimeoutExpired), containers_run = (\<lambda>c. UndecodableOutput)\<rparr>"
  have parts: "split_ws (strip ''ls -la'') = [''ls'', ''-la'']"
    by (simp add: split_ws_def strip_def isspace_def)
  have h1: "is_command_allowed ?self ''ls -la''"
    by (simp add: is_command_allowed_def parts ShellExecutor_init_def or_default_def
        default_allowed_def default_blocked_def)
  have h2: "\<not> enable_sandbox ?self" by (simp add: ShellExecutor_init_def)
  have h3: "subprocess_run ?env ''ls -la'' = TimeoutExpired" by simp
  from run_command_timeout_is_a_value [OF h1 h2 h3] h1 h2 h3 show ?thesis by blast
qed

section \<open>Properties of the plan parser\<close>

lemma partition_first_None: "partition_first sep s = None \<longleftrightarrow> \<not> str_contains sep s"
  by (induction s) (auto split: option.splits)

lemma partition_first_Some:
  "partition_first sep s = Some (a, b) \<Longrightarrow> s = a @ sep @ b"
proof (induction s arbitrary: a)
  case Nil
  then show ?case by (simp split: if_splits)
next
  case (Cons c cs)
  show ?case
  proof (cases "prefix sep (c # cs)")
    case True
    with Cons.prems have "a = []" and "b = drop (length sep) (c # cs)" by simp_all
    moreover from True obtain r where "c # cs = sep @ r" by (auto simp: prefix_def)
    ultimately show ?thesis by simp
  next
    case False
    with Cons.prems obtain a' where "partition_first sep cs = Some (a', b)" and "a = c # a'"
      by (auto split: option.splits)
    with Cons.IH show ?thesis by simp
  qed
qed

lemma partition_first_earliest:
  "partition_first sep s = Some (a, b) \<Longrightarrow> s = ps @ sep @ ss \<Longrightarrow> length a \<le> length ps"
proof (induction s arbitrary: a ps)
  case Nil
  then show ?case by (simp split: if_splits)
next
  case (Cons c cs)
  show ?case
  proof (cases "prefix sep (c # cs)")
    case True
    with Cons.prems(1) have "a = []" by simp
    then show ?thesis by simp
  next
    case False
    with Cons.prems(1) obtain a' where a': "partition_first sep cs = Some (a', b)" "a = c # a'"
      by (auto split: option.splits)
    from False Cons.prems(2) have "ps \<noteq> []" by (auto simp: prefix_def)
    then obtain p ps' where ps: "ps = p # ps'" by (cases ps) auto
    with Cons.prems(2) have "cs = ps' @ sep @ ss" by simp
    from Cons.IH [OF a'(1) this] a'(2) ps show ?thesis by simp
  qed
qed

lemma split_once_contains:
  assumes "str_contains sep s"
  shows "\<exists>a b. split_once sep s = [a, b] \<and> s = a @ sep @ b
               \<and> (\<forall>ps ss. s = ps @ sep @ ss \<longrightarrow> length a \<le> length ps)"
proof -
  from assms obtain a b where ab: "partition_first sep s = Some (a, b)"
    using partition_first_None [of sep s] by (cases "partition_first sep s") auto
  then have "split_once sep s = [a, b]" by (simp add: split_once_def)
  with ab show ?thesis
    using partition_first_Some [OF ab] partition_first_earliest [OF ab] by blast
qed

text \<open>The test of the first branch of the loop body, on a stripped line.\<close>

lemma parse_line_header:
  assumes "strip raw \<noteq> []" and "isdigit (hd (strip raw))" and "str_contains ''. '' (strip raw)"
  shows "parse_line st raw =
           \<lparr>steps = append_current st,
            current_step = Some (split_once ''. '' (strip raw) ! 1),
            current_subtasks = []\<rparr>"
proof -
  from split_once_contains [OF assms(3)] obtain a b
    where "split_once ''. '' (strip raw) = [a, b]" by blast
  with assms show ?thesis by (simp add: parse_line_def Let_def)
qed

lemma parse_line_not_header:
  assumes "\<not> (strip raw \<noteq> [] \<and> isdigit (hd (strip raw)) \<and> str_contains ''. '' (strip raw))"
  shows "steps (parse_line st raw) = steps st \<and> current_step (parse_line st raw) = current_step st"
  using assms by (auto simp: parse_line_def Let_def)

lemma append_current_parse_line:
  "map description (append_current (parse_line st raw)) =
     map description (append_current st)
     @ (if strip raw \<noteq> [] \<and> isdigit (hd (strip raw)) \<and> str_contains ''. '' (strip raw)
        then [split_once ''. '' (strip raw) ! 1] else [])"
proof (cases "strip raw \<noteq> [] \<and> isdigit (hd (strip raw)) \<and> str_contains ''. '' (strip raw)")
  case True
  then show ?thesis by (simp add: parse_line_header append_current_def)
next
  case False
  from parse_line_not_header [OF False, of st] False show ?thesis
    by (simp add: append_current_def split: option.splits)
qed

lemma parse_lines_descriptions:
  "map description (append_current (parse_lines st ls)) =
     map description (append_current st)
     @ map (\<lambda>l. split_once ''. '' l ! 1)
         (filter (\<lambda>l. l \<noteq> [] \<and> isdigit (hd l) \<and> str_contains ''. '' l) (map strip ls))"
proof (induction ls arbitrary: st)
  case Nil
  then show ?case by simp
next
  case (Cons raw rest)
  show ?case
    by (simp only: parse_lines.simps Cons.IH append_current_parse_line)
       (simp add: append_current_def)
qed

lemma parse_line_pending:
  assumes "\<forall>s \<in> set (steps st). status s = ''pending''"
  shows "\<forall>s \<in> set (steps (parse_line st raw)). status s = ''pending''"
  using assms
  by (auto simp: parse_line_def Let_def append_current_def split: option.splits)

lemma parse_lines_pending:
  "\<forall>s \<in> set (steps st). status s = ''pending''
   \<Longrightarrow> \<forall>s \<in> set (steps (parse_lines st ls)). status s = ''pending''"
proof (induction ls arbitrary: st)
  case Nil
  then show ?case by simp
next
  case (Cons raw rest)
  from parse_line_pending [OF Cons.prems] have "\<forall>s \<in> set (steps (parse_line st raw)). status s = ''pending''" .
  from Cons.IH [OF this] show ?case by simp
qed

lemma append_current_pending:
  "\<forall>s \<in> set (steps st). status s = ''pending''
   \<Longrightarrow> \<forall>s \<in> set (append_current st). status s = ''pending''"
  by (auto simp: append_current_def split: option.splits)

lemma parse_plan_example:
  "parse_plan (''1. Step A'' @ [CHR 0x0A] @ ''- sub1'' @ [CHR 0x0A] @ ''- sub2'' @ [CHR 0x0A]
               @ ''2. Step B'' @ [CHR 0x0A] @ ''* sub3'') =
     [\<lparr>description = ''Step A'', subtasks = [''sub1'', ''sub2''], status = ''pending''\<rparr>,
      \<lparr>description = ''Step B'', subtasks = [''sub3''], status = ''pending''\<rparr>]"
  by code_simp

text \<open>
  C5, as stated, fails: the test on the first character is \<^verbatim>\<open>str.isdigit\<close>, which also
  holds for digit characters that are not decimal digits. The line made of the
  superscript two (U+00B2) followed by \<^verbatim>\<open>. Sq\<close> begins with a character that is not a
  decimal digit, and it is taken as a step header: the text parses to the step \<^verbatim>\<open>Sq\<close>.
\<close>

theorem parse_plan_superscript_header_counterexample:
  "\<not> isdecimal (CHR 0xB2)
   \<and> strip (CHR 0xB2 # ''. Sq'') = CHR 0xB2 # ''. Sq''
   \<and> hd (strip (CHR 0xB2 # ''. Sq'')) = CHR 0xB2
   \<and> parse_line \<lparr>steps = [], current_step = None, current_subtasks = []\<rparr> (CHR 0xB2 # ''. Sq'')
       = \<lparr>steps = [], current_step = Some ''Sq'', current_subtasks = []\<rparr>
   \<and> parse_plan (CHR 0xB2 # ''. Sq'')
       = [\<lparr>description = ''Sq'', subtasks = [], status = ''pending''\<rparr>]"
proof -
  have a: "\<not> isdecimal (CHR 0xB2)" by (simp add: isdecimal_def)
  have b: "strip (CHR 0xB2 # ''. Sq'') = CHR 0xB2 # ''. Sq''"
    by (simp add: strip_def isspace_def)
  have c: "parse_line \<lparr>steps = [], current_step = None, current_subtasks = []\<rparr>
             (CHR 0xB2 # ''. Sq'')
       = \<lparr>steps = [], current_step = Some ''Sq'', current_subtasks = []\<rparr>"
    by code_simp
  have d: "parse_plan (CHR 0xB2 # ''. Sq'')
       = [\<lparr>description = ''Sq'', subtasks = [], status = ''pending''\<rparr>]"
    by code_simp
  from a b c d show ?thesis by simp
qed

text \<open>
  C5, amended. In \<open>_parse_plan\<close> a stripped, non-blank line is a step header exactly when
  its first character is a digit in the sense of \<^verbatim>\<open>str.isdigit\<close> (a decimal digit or
  another digit character, such as a superscript digit) and it contains a dot followed by
  a blank. On a header the open step, if any, is appended with status pending, and a new
  step is opened whose description is the text after the first such delimiter, with no
  sub-tasks; on any other line neither the list of steps nor the open step changes. After
  the last line the open step is appended. So the descriptions of the steps returned are
  the texts after the first delimiter of the header lines, in order; a text without a
  header line gives the empty list; every step returned is pending; and the text
  \<^verbatim>\<open>1. Step A / - sub1 / - sub2 / 2. Step B / * sub3\<close> (one line each) gives Step A with
  sub-tasks sub1, sub2 and Step B with sub-task sub3.
\<close>

theorem parse_plan_step_headers:
  "(isdigit c \<longleftrightarrow> c \<in> set ''0123456789'' \<or> c = CHR 0xB2 \<or> c = CHR 0xB3 \<or> c = CHR 0xB9)
   \<and> (strip raw \<noteq> [] \<and> isdigit (hd (strip raw)) \<and> (\<exists>ps ss. strip raw = ps @ ''. '' @ ss) \<longrightarrow>
      (\<exists>before after.
         strip raw = before @ ''. '' @ after
         \<and> (\<forall>ps ss. strip raw = ps @ ''. '' @ ss \<longrightarrow> length before \<le> length ps)
         \<and> parse_line st raw =
             \<lparr>steps = steps st @
                (case current_step st of
                   None \<Rightarrow> []
                 | Some d \<Rightarrow> [\<lparr>description = d, subtasks = current_subtasks st,
                              status = ''pending''\<rparr>]),
              current_step = Some after, current_subtasks = []\<rparr>))
   \<and> (\<not> (strip raw \<noteq> [] \<and> isdigit (hd (strip raw)) \<and> (\<exists>ps ss. strip raw = ps @ ''. '' @ ss)) \<longrightarrow>
        steps (parse_line st raw) = steps st
        \<and> current_step (parse_line st raw) = current_step st)
   \<and> parse_plan t =
       (let st1 = parse_lines \<lparr>steps = [], current_step = None, current_subtasks = []\<rparr>
                    (split_char (CHR 0x0A) (strip t))
        in steps st1 @
           (case current_step st1 of
              None \<Rightarrow> []
            | Some d \<Rightarrow> [\<lparr>description = d, subtasks = current_subtasks st1,
                         status = ''pending''\<rparr>]))
   \<and> map description (parse_plan t) =
       map (\<lambda>l. split_once ''. '' l ! 1)
         (filter (\<lambda>l. l \<noteq> [] \<and> isdigit (hd l) \<and> str_contains ''. '' l)
            (map strip (split_char (CHR 0x0A) (strip t))))
   \<and> ((\<forall>l \<in> set (split_char (CHR 0x0A) (strip t)).
          \<not> (strip l \<noteq> [] \<and> isdigit (hd (strip l)) \<and> (\<exists>ps ss. strip l = ps @ ''. '' @ ss)))
        \<longrightarrow> parse_plan t = [])
   \<and> (\<forall>s \<in> set (parse_plan t). status s = ''pending'')
   \<and> parse_plan (''1. Step A'' @ [CHR 0x0A] @ ''- sub1'' @ [CHR 0x0A] @ ''- sub2'' @ [CHR 0x0A]
                 @ ''2. Step B'' @ [CHR 0x0A] @ ''* sub3'') =
       [\<lparr>description = ''Step A'', subtasks = [''sub1'', ''sub2''], status = ''pending''\<rparr>,
        \<lparr>description = ''Step B'', subtasks = [''sub3''], status = ''pending''\<rparr>]"
proof -
  let ?hdr = "\<lambda>l. l \<noteq> [] \<and> isdigit (hd l) \<and> str_contains ''. '' l"
  let ?init = "\<lparr>steps = [], current_step = None, current_subtasks = []\<rparr>"
  let ?lines = "split_char (CHR 0x0A) (strip t)"
  have ac: "append_current s =
      steps s @ (case current_step s of
                   None \<Rightarrow> []
                 | Some d \<Rightarrow> [\<lparr>description = d, subtasks = current_subtasks s,
                              status = ''pending''\<rparr>])" for s
    by (simp add: append_current_def split: option.splits)
  have p1: "\<exists>before after.
         strip raw = before @ ''. '' @ after
         \<and> (\<forall>ps ss. strip raw = ps @ ''. '' @ ss \<longrightarrow> length before \<le> length ps)
         \<and> parse_line st raw =
             \<lparr>steps = steps st @
                (case current_step st of
                   None \<Rightarrow> []
                 | Some d \<Rightarrow> [\<lparr>description = d, subtasks = current_subtasks st,
                              status = ''pending''\<rparr>]),
              current_step = Some after, current_subtasks = []\<rparr>"
    if h: "strip raw \<noteq> [] \<and> isdigit (hd (strip raw)) \<and> (\<exists>ps ss. strip raw = ps @ ''. '' @ ss)"
  proof -
    from h have c: "str_contains ''. '' (strip raw)" by (simp only: str_contains_iff)
    from split_once_contains [OF c] obtain a b where
      ab: "split_once ''. '' (strip raw) = [a, b]" "strip raw = a @ ''. '' @ b"
          "\<forall>ps ss. strip raw = ps @ ''. '' @ ss \<longrightarrow> length a \<le> length ps"
      by blast
    from h c have "parse_line st raw =
        \<lparr>steps = append_current st, current_step = Some (split_once ''. '' (strip raw) ! 1),
         current_subtasks = []\<rparr>"
      by (intro parse_line_header) simp_all
    with ab(1) have "parse_line st raw =
        \<lparr>steps = append_current st, current_step = Some b, current_subtasks = []\<rparr>"
      by simp
    with ab(2,3) show ?thesis unfolding ac by blast
  qed
  have p2: "steps (parse_line st raw) = steps st
        \<and> current_step (parse_line st raw) = current_step st"
    if h: "\<not> (strip raw \<noteq> [] \<and> isdigit (hd (strip raw)) \<and> (\<exists>ps ss. strip raw = ps @ ''. '' @ ss))"
  proof -
    from h have "\<not> (strip raw \<noteq> [] \<and> isdigit (hd (strip raw)) \<and> str_contains ''. '' (strip raw))"
      unfolding str_contains_iff .
    then show ?thesis by (rule parse_line_not_header)
  qed
  have p3: "parse_plan t =
       (let st1 = parse_lines ?init ?lines
        in steps st1 @
           (case current_step st1 of
              None \<Rightarrow> []
            | Some d \<Rightarrow> [\<lparr>description = d, subtasks = current_subtasks st1,
                         status = ''pending''\<rparr>]))"
    by (simp add: parse_plan_def Let_def ac)
  have p4: "map description (parse_plan t) =
       map (\<lambda>l. split_once ''. '' l ! 1) (filter ?hdr (map strip ?lines))"
    using parse_lines_descriptions [of ?init ?lines]
    by (simp add: parse_plan_def Let_def append_current_def)
  have p5: "parse_plan t = []"
    if h: "\<forall>l \<in> set ?lines.
          \<not> (strip l \<noteq> [] \<and> isdigit (hd (strip l)) \<and> (\<exists>ps ss. strip l = ps @ ''. '' @ ss))"
  proof -
    from h have "\<forall>l \<in> set (map strip ?lines). \<not> ?hdr l"
      by (simp add: str_contains_iff)
    then have "filter ?hdr (map strip ?lines) = []"
      by (simp only: filter_empty_conv)
    with p4 show ?thesis by simp
  qed
  have p6: "\<forall>s \<in> set (parse_plan t). status s = ''pending''"
    unfolding parse_plan_def Let_def
    by (rule append_current_pending, rule parse_lines_pending) simp
  have p0: "isdigit c \<longleftrightarrow> c \<in> set ''0123456789'' \<or> c = CHR 0xB2 \<or> c = CHR 0xB3 \<or> c = CHR 0xB9"
    by (simp add: isdigit_def isdecimal_def)
  from p0 p1 p2 p3 p4 p5 p6 parse_plan_example show ?thesis by blast
qed

theorem parse_plan_step_headers_witness:
  "strip ''2. Step B'' \<noteq> [] \<and> isdigit (hd (strip ''2. Step B''))
   \<and> (\<exists>ps ss. strip ''2. Step B'' = ps @ ''. '' @ ss)
   \<and> (\<exists>before after.
         strip ''2. Step B'' = before @ ''. '' @ after
         \<and> parse_line \<lparr>steps = [], current_step = Some ''Step A'', current_subtasks = [''sub1'']\<rparr>
             ''2. Step B'' =
             \<lparr>steps = [\<lparr>description = ''Step A'', subtasks = [''sub1''], status = ''pending''\<rparr>],
              current_step = Some after, current_subtasks = []\<rparr>)
   \<and> parse_plan ''no step here'' = []"
proof -
  let ?st = "\<lparr>steps = [], current_step = Some ''Step A'', current_subtasks = [''sub1'']\<rparr>"
  note T = parse_plan_step_headers [of "CHR ''2''" "''2. Step B''" ?st "''no step here''"]
  have s: "strip ''2. Step B'' = ''2. Step B''" by (simp add: strip_def isspace_def)
  have "''2. Step B'' = ''2'' @ ''. '' @ ''Step B''" by simp
  then have occ: "\<exists>ps ss. strip ''2. Step B'' = ps @ ''. '' @ ss" unfolding s by blast
  have h: "strip ''2. Step B'' \<noteq> [] \<and> isdigit (hd (strip ''2. Step B''))
           \<and> (\<exists>ps ss. strip ''2. Step B'' = ps @ ''. '' @ ss)"
    using occ by (simp add: s isdigit_def isdecimal_def)
  from T h have "\<exists>before after.
         strip ''2. Step B'' = before @ ''. '' @ after
         \<and> (\<forall>ps ss. strip ''2. Step B'' = ps @ ''. '' @ ss \<longrightarrow> length before \<le> length ps)
         \<and> parse_line ?st ''2. Step B'' =
             \<lparr>steps = steps ?st @
                (case current_step ?st of
                   None \<Rightarrow> []
                 | Some d \<Rightarrow> [\<lparr>description = d, subtasks = current_subtasks ?st,
                              status = ''pending''\<rparr>]),
              current_step = Some after, current_subtasks = []\<rparr>"
    by blast
  then have A: "\<exists>before after.
         strip ''2. Step B'' = before @ ''. '' @ after
         \<and> parse_line ?st ''2. Step B'' =
             \<lparr>steps = [\<lparr>description = ''Step A'', subtasks = [''sub1''], status = ''pending''\<rparr>],
              current_step = Some after, current_subtasks = []\<rparr>"
    by simp blast
  have "\<forall>l \<in> set (split_char (CHR 0x0A) (strip ''no step here'')).
          \<not> (strip l \<noteq> [] \<and> isdigit (hd (strip l)) \<and> (\<exists>ps ss. strip l = ps @ ''. '' @ ss))"
    by (simp add: split_char_def strip_def isspace_def isdigit_def isdecimal_def)
  with T have B: "parse_plan ''no step here'' = []" by blast
  from h A B show ?thesis by blast
qed

text \<open>
  C6, as stated, fails: a bullet line whose remainder is empty after trimming is not
  appended. With the step \<^verbatim>\<open>Step A\<close> open and the sub-task \<^verbatim>\<open>sub1\<close> read, the line \<^verbatim>\<open>-\<close>
  leaves the sub-task list as it was, and \<^verbatim>\<open>1. Step A / -\<close> parses to a step with no
  sub-task.
\<close>

theorem parse_line_empty_subtask_counterexample:
  "strip ''-'' \<noteq> []
   \<and> \<not> (isdigit (hd (strip ''-'')) \<and> str_contains ''. '' (strip ''-''))
   \<and> prefix ''-'' (strip ''-'')
   \<and> current_step \<lparr>steps = [], current_step = Some ''Step A'', current_subtasks = [''sub1'']\<rparr>
       \<noteq> None
   \<and> strip (tl (strip ''-'')) = []
   \<and> current_subtasks
       (parse_line \<lparr>steps = [], current_step = Some ''Step A'', current_subtasks = [''sub1'']\<rparr>
          ''-'') = [''sub1'']
   \<and> current_subtasks
       (parse_line \<lparr>steps = [], current_step = Some ''Step A'', current_subtasks = [''sub1'']\<rparr>
          ''-'') \<noteq> [''sub1''] @ [strip (tl (strip ''-''))]
   \<and> parse_plan (''1. Step A'' @ [CHR 0x0A] @ ''-'') =
       [\<lparr>description = ''Step A'', subtasks = [], status = ''pending''\<rparr>]"
proof -
  have s: "strip ''-'' = ''-''" by (simp add: strip_def isspace_def)
  have e: "strip [] = []" by (simp add: strip_def)
  have p: "parse_plan (''1. Step A'' @ [CHR 0x0A] @ ''-'') =
       [\<lparr>description = ''Step A'', subtasks = [], status = ''pending''\<rparr>]"
    by code_simp
  from p show ?thesis
    by (simp add: s e parse_line_def isdigit_def isdecimal_def)
qed

text \<open>
  C6, amended. For a line that, stripped, is not blank, is not a step header and begins
  with \<^verbatim>\<open>-\<close> or \<^verbatim>\<open>*\<close>, while a step is open: if the rest of the line after that first
  character, trimmed, is not empty, it is appended to the sub-task list of the open step
  and nothing else changes; if it is empty, the line is ignored.
\<close>

theorem parse_line_subtask:
  assumes "strip raw \<noteq> []"
    and "\<not> (isdigit (hd (strip raw)) \<and> (\<exists>ps ss. strip raw = ps @ ''. '' @ ss))"
    and "prefix ''-'' (strip raw) \<or> prefix ''*'' (strip raw)"
    and "current_step st \<noteq> None"
  shows "parse_line st raw =
           (if strip (tl (strip raw)) \<noteq> []
            then st\<lparr>current_subtasks := current_subtasks st @ [strip (tl (strip raw))]\<rparr>
            else st)"
proof -
  from assms(2) have "\<not> (isdigit (hd (strip raw)) \<and> str_contains ''. '' (strip raw))"
    unfolding str_contains_iff .
  with assms(1,3,4) show ?thesis
    by (auto simp: parse_line_def Let_def)
qed

theorem parse_line_subtask_witness:
  "strip ''  - sub2 '' \<noteq> []
   \<and> \<not> (isdigit (hd (strip ''  - sub2 '')) \<and> (\<exists>ps ss. strip ''  - sub2 '' = ps @ ''. '' @ ss))
   \<and> prefix ''-'' (strip ''  - sub2 '')
   \<and> parse_line \<lparr>steps = [], current_step = Some ''Step A'', current_subtasks = [''sub1'']\<rparr>
       ''  - sub2 '' =
       \<lparr>steps = [], current_step = Some ''Step A'', current_subtasks = [''sub1'', ''sub2'']\<rparr>"
proof -
  let ?st = "\<lparr>steps = [], current_step = Some ''Step A'', current_subtasks = [''sub1'']\<rparr>"
  have s: "strip ''  - sub2 '' = ''- sub2''" by (simp add: strip_def isspace_def)
  have s2: "strip '' sub2'' = ''sub2''" by (simp add: strip_def isspace_def)
  have h1: "strip ''  - sub2 '' \<noteq> []" by (simp add: s)
  have h2: "\<not> (isdigit (hd (strip ''  - sub2 ''))
              \<and> (\<exists>ps ss. strip ''  - sub2 '' = ps @ ''. '' @ ss))"
    by (simp add: s isdigit_def isdecimal_def)
  have h3: "prefix ''-'' (strip ''  - sub2 '') \<or> prefix ''*'' (strip ''  - sub2 '')"
    by (simp add: s)
  have h4: "current_step ?st \<noteq> None" by simp
  from parse_line_subtask [OF h1 h2 h3 h4] have
    "parse_line ?st ''  - sub2 '' =
       \<lparr>steps = [], current_step = Some ''Step A'', current_subtasks = [''sub1'', ''sub2'']\<rparr>"
    by (simp add: s s2)
  moreover have "prefix ''-'' (strip ''  - sub2 '')" by (simp add: s)
  ultimately show ?thesis using h1 h2 by blast
qed

section \<open>Properties of plan execution\<close>

lemma simulate_calls_success: "\<forall>te \<in> set (simulate_calls calls yolo_mode). success te"
  by (induction calls) auto

lemma simulate_tool_execution_success:
  "\<forall>te \<in> set (simulate_tool_execution etext yolo_mode). success te"
  by (simp add: simulate_tool_execution_def simulate_calls_success)

lemma step_status_completed_iff:
  "step_status tes = ''completed'' \<longleftrightarrow> (\<forall>te \<in> set tes. success te)"
  by (simp add: step_status_def list_all_iff)

lemma step_status_failed_iff:
  "step_status tes = ''failed'' \<longleftrightarrow> \<not> (\<forall>te \<in> set tes. success te)"
  by (simp add: step_status_def list_all_iff)

lemma execute_step_fields:
  "sr_status (fst (execute_step gc results stp n total_steps yolo_mode)) =
     step_status (tool_executions (fst (execute_step gc results stp n total_steps yolo_mode)))"
  "\<exists>etext. tool_executions (fst (execute_step gc results stp n total_steps yolo_mode)) =
     simulate_tool_execution etext yolo_mode"
  by (simp_all add: execute_step_def Let_def) blast

lemma execute_step_completed:
  "sr_status (fst (execute_step gc results stp n total_steps yolo_mode)) = ''completed''"
proof -
  obtain etext where
    "tool_executions (fst (execute_step gc results stp n total_steps yolo_mode)) =
       simulate_tool_execution etext yolo_mode"
    using execute_step_fields(2) by blast
  then have "\<forall>te \<in> set (tool_executions
      (fst (execute_step gc results stp n total_steps yolo_mode))). success te"
    using simulate_tool_execution_success [of etext yolo_mode] by simp
  then show ?thesis
    by (simp only: execute_step_fields(1) step_status_completed_iff)
qed

text \<open>What the loop of \<open>execute_plan\<close> has done when it is left, for any step executor.\<close>

lemma execute_plan_loop_shape:
  assumes "execute_plan_loop exec total_steps yolo_mode i plan s = (entries, plan1, stopped, s1)"
  shows "length entries \<le> length plan
       \<and> map step_num entries = [i + 1 ..< i + 1 + length entries]
       \<and> map entry_description entries = map description (take (length entries) plan)
       \<and> (\<forall>e \<in> set entries. entry_status e = sr_status (entry_result e))
       \<and> length plan1 = length plan
       \<and> map description plan1 = map description plan
       \<and> map status (take (length entries) plan1) = map entry_status entries
       \<and> drop (length entries) plan1 = drop (length entries) plan
       \<and> (stopped \<longrightarrow> \<not> yolo_mode \<and> entries \<noteq> [] \<and> entry_status (last entries) = ''failed'')
       \<and> (\<not> stopped \<longrightarrow> length entries = length plan)
       \<and> (\<not> yolo_mode \<longrightarrow> (\<forall>e \<in> set (butlast entries). entry_status e \<noteq> ''failed''))
       \<and> (\<not> yolo_mode \<and> \<not> stopped \<longrightarrow> (\<forall>e \<in> set entries. entry_status e \<noteq> ''failed''))"
  using assms
proof (induction plan arbitrary: i s entries plan1 stopped s1)
  case Nil
  then show ?case by simp
next
  case (Cons stp rest)
  obtain res s' where ex: "exec s stp (i + 1) total_steps yolo_mode = (res, s')"
    by (cases "exec s stp (i + 1) total_steps yolo_mode") auto
  let ?entry = "\<lparr>step_num = i + 1, entry_description = description stp,
                  entry_result = res, entry_status = sr_status res\<rparr>"
  show ?case
  proof (cases "sr_status res = ''failed'' \<and> \<not> yolo_mode")
    case True
    with Cons.prems ex have "entries = [?entry]" "plan1 = stp\<lparr>status := sr_status res\<rparr> # rest"
      "stopped" by (simp_all add: Let_def)
    with True show ?thesis by simp
  next
    case False
    obtain es p1 st s2 where rec:
      "execute_plan_loop exec total_steps yolo_mode (i + 1) rest s' = (es, p1, st, s2)"
      by (cases "execute_plan_loop exec total_steps yolo_mode (i + 1) rest s'") auto
    with Cons.prems ex False have eqs: "entries = ?entry # es"
      "plan1 = stp\<lparr>status := sr_status res\<rparr> # p1" "stopped = st"
      by (auto simp: Let_def)
    note IH = Cons.IH [OF rec]
    have "map step_num es = [Suc (i + 1) ..< Suc (i + 1) + length es]"
      using IH by simp
    then have "map step_num entries = (i + 1) # [Suc (i + 1) ..< Suc (i + 1) + length es]"
      using eqs(1) by simp
    also have "\<dots> = [i + 1 ..< Suc (i + 1) + length es]"
      by (rule upt_conv_Cons [symmetric]) simp
    finally have nums: "map step_num entries = [i + 1 ..< i + 1 + length entries]"
      using eqs(1) by simp
    have bl: "\<not> yolo_mode \<longrightarrow> (\<forall>e \<in> set (butlast entries). entry_status e \<noteq> ''failed'')"
      using IH eqs(1) False by auto
    have al: "\<not> yolo_mode \<and> \<not> stopped \<longrightarrow> (\<forall>e \<in> set entries. entry_status e \<noteq> ''failed'')"
      using IH eqs(1,3) False by auto
    have st: "stopped \<longrightarrow> \<not> yolo_mode \<and> entries \<noteq> [] \<and> entry_status (last entries) = ''failed''"
      using IH eqs(1,3) by auto
    from IH eqs nums bl al st show ?thesis by simp
  qed
qed

lemma execute_plan_loop_results:
  assumes "\<And>s stp n. P (fst (exec s stp n total_steps yolo_mode))"
    and "execute_plan_loop exec total_steps yolo_mode i plan s = (entries, plan1, stopped, s1)"
  shows "\<forall>e \<in> set entries. P (entry_result e)"
  using assms(2)
proof (induction plan arbitrary: i s entries plan1 stopped s1)
  case Nil
  then show ?case by simp
next
  case (Cons stp rest)
  obtain res s' where ex: "exec s stp (i + 1) total_steps yolo_mode = (res, s')"
    by (cases "exec s stp (i + 1) total_steps yolo_mode") auto
  with assms(1) [of s stp "i + 1"] have res: "P res" by simp
  obtain es p1 st s2 where rec:
    "execute_plan_loop exec total_steps yolo_mode (i + 1) rest s' = (es, p1, st, s2)"
    by (cases "execute_plan_loop exec total_steps yolo_mode (i + 1) rest s'") auto
  from Cons.IH [OF rec] have "\<forall>e \<in> set es. P (entry_result e)" .
  with Cons.prems ex rec res show ?case
    by (auto simp: Let_def split: if_splits)
qed

lemma run_in_order_length: "length (run_in_order exec t y i plan s) = length plan"
  by (induction plan arbitrary: i s) auto

lemma run_in_order_nth:
  "j < length plan \<Longrightarrow>
   run_in_order exec t y i plan s ! j =
     exec (if j = 0 then s else snd (run_in_order exec t y i plan s ! (j - 1)))
       (plan ! j) (i + j + 1) t y"
proof (induction plan arbitrary: i s j)
  case Nil
  then show ?case by simp
next
  case (Cons stp rest)
  show ?case
  proof (cases j)
    case 0
    then show ?thesis by simp
  next
    case (Suc j')
    with Cons.prems have "j' < length rest" by simp
    from Cons.IH [OF this, of "i + 1" "snd (exec s stp (i + 1) t y)"] Suc
    show ?thesis by (cases j') simp_all
  qed
qed

lemma steps_executed_le: "steps_executed y outs \<le> length outs"
  by (simp add: steps_executed_def)

text \<open>The loop returns what the run in order gives, cut after \<open>steps_executed\<close> steps.\<close>

lemma execute_plan_loop_run:
  "execute_plan_loop exec t y i plan s =
     (map (\<lambda>(n, stp, out). \<lparr>step_num = n, entry_description = description stp,
                              entry_result = fst out, entry_status = sr_status (fst out)\<rparr>)
        (zip [i + 1 ..< i + 1 + steps_executed y (run_in_order exec t y i plan s)]
           (zip plan (run_in_order exec t y i plan s))),
      map (\<lambda>(stp, out). stp\<lparr>status := sr_status (fst out)\<rparr>)
        (zip (take (steps_executed y (run_in_order exec t y i plan s)) plan)
           (run_in_order exec t y i plan s))
        @ drop (steps_executed y (run_in_order exec t y i plan s)) plan,
      \<not> y \<and> (\<exists>out \<in> set (run_in_order exec t y i plan s). sr_status (fst out) = ''failed''),
      (if steps_executed y (run_in_order exec t y i plan s) = 0 then s
       else snd (run_in_order exec t y i plan s
                   ! (steps_executed y (run_in_order exec t y i plan s) - 1))))"
proof (induction plan arbitrary: i s)
  case Nil
  then show ?case by (simp add: steps_executed_def)
next
  case (Cons stp rest)
  obtain res s1 where ex: "exec s stp (Suc i) t y = (res, s1)"
    by (cases "exec s stp (Suc i) t y") auto
  let ?outs = "run_in_order exec t y (Suc i) rest s1"
  show ?case
  proof (cases "sr_status res = ''failed'' \<and> \<not> y")
    case True
    then have k: "steps_executed y ((res, s1) # ?outs) = 1"
      by (simp add: steps_executed_def)
    from True ex k show ?thesis
      by (simp add: Let_def)
  next
    case False
    then have k: "steps_executed y ((res, s1) # ?outs) = Suc (steps_executed y ?outs)"
      by (auto simp: steps_executed_def)
    have up: "[Suc i ..< Suc (Suc (i + steps_executed y ?outs))]
        = Suc i # [Suc (Suc i) ..< Suc (Suc (i + steps_executed y ?outs))]"
      by (rule upt_conv_Cons) simp
    from False ex k up Cons.IH [of "Suc i" s1] show ?thesis
      by (auto simp: Let_def nth_Cons')
  qed
qed

lemma execute_plan_with_run:
  "execute_plan_with exec plan y s =
     (\<lparr>result_steps =
         map (\<lambda>(n, stp, out). \<lparr>step_num = n, entry_description = description stp,
                                 entry_result = fst out, entry_status = sr_status (fst out)\<rparr>)
           (zip [1 ..< 1 + steps_executed y (run_in_order exec (length plan) y 0 plan s)]
              (zip plan (run_in_order exec (length plan) y 0 plan s))),
       overall_status =
         (if \<not> y \<and> (\<exists>out \<in> set (run_in_order exec (length plan) y 0 plan s).
                         sr_status (fst out) = ''failed'')
          then ''failed'' else ''completed'')\<rparr>,
      map (\<lambda>(stp, out). stp\<lparr>status := sr_status (fst out)\<rparr>)
        (zip (take (steps_executed y (run_in_order exec (length plan) y 0 plan s)) plan)
           (run_in_order exec (length plan) y 0 plan s))
        @ drop (steps_executed y (run_in_order exec (length plan) y 0 plan s)) plan,
      (if steps_executed y (run_in_order exec (length plan) y 0 plan s) = 0 then s
       else snd (run_in_order exec (length plan) y 0 plan s
                   ! (steps_executed y (run_in_order exec (length plan) y 0 plan s) - 1))))"
  by (cases y)
     (simp_all add: execute_plan_with_def execute_plan_loop_run [of exec "length plan" _ 0 plan s]
        Let_def)

lemma entries_nth:
  assumes "k \<le> length outs" and "length outs = length plan" and "j < k"
  shows "map (\<lambda>(n, stp, out). \<lparr>step_num = n, entry_description = description stp,
                                 entry_result = fst out, entry_status = sr_status (fst out)\<rparr>)
           (zip [1 ..< 1 + k] (zip plan outs)) ! j =
         \<lparr>step_num = j + 1, entry_description = description (plan ! j),
          entry_result = fst (outs ! j), entry_status = sr_status (fst (outs ! j))\<rparr>"
  using assms by (simp del: upt_Suc)

lemma entries_length:
  assumes "k \<le> length outs" and "length outs = length plan"
  shows "length (map (\<lambda>(n, stp, out). \<lparr>step_num = n, entry_description = description stp,
                                 entry_result = fst out, entry_status = sr_status (fst out)\<rparr>)
           (zip [1 ..< 1 + k] (zip plan outs))) = k"
  using assms by (simp del: upt_Suc)

text \<open>
  C7. The status of the result of \<open>execute_step\<close> is computed from its list of tool
  executions: it is completed exactly when every entry of the list has \<open>success\<close> true,
  and failed otherwise. A step with no tool execution is completed.
\<close>

theorem execute_step_status:
  "(step_status tes = ''completed'' \<longleftrightarrow> (\<forall>te \<in> set tes. success te))
   \<and> (step_status tes = ''failed'' \<longleftrightarrow> \<not> (\<forall>te \<in> set tes. success te))
   \<and> sr_status (fst (execute_step gc results stp n total_steps yolo_mode)) =
       step_status (tool_executions (fst (execute_step gc results stp n total_steps yolo_mode)))
   \<and> (sr_status (fst (execute_step gc results stp n total_steps yolo_mode)) = ''completed''
        \<longleftrightarrow> (\<forall>te \<in> set (tool_executions
                  (fst (execute_step gc results stp n total_steps yolo_mode))). success te))
   \<and> (tool_executions (fst (execute_step gc results stp n total_steps yolo_mode)) = []
        \<longrightarrow> sr_status (fst (execute_step gc results stp n total_steps yolo_mode)) = ''completed'')
   \<and> step_status [] = ''completed''"
proof -
  let ?r = "fst (execute_step gc results stp n total_steps yolo_mode)"
  have a: "sr_status ?r = step_status (tool_executions ?r)" by (rule execute_step_fields(1))
  have b: "sr_status ?r = ''completed'' \<longleftrightarrow> (\<forall>te \<in> set (tool_executions ?r). success te)"
    by (simp only: a step_status_completed_iff)
  have c: "tool_executions ?r = [] \<longrightarrow> sr_status ?r = ''completed''"
    using b by simp
  have d: "step_status [] = ''completed''" by (simp add: step_status_def)
  from step_status_completed_iff [of tes] step_status_failed_iff [of tes] a b c d
  show ?thesis by blast
qed

theorem execute_step_status_witness:
  "tool_executions (fst (execute_step (\<lambda>p. ''nothing to do'') []
       \<lparr>description = ''think'', subtasks = [], status = ''pending''\<rparr> 1 1 False)) = []
   \<and> sr_status (fst (execute_step (\<lambda>p. ''nothing to do'') []
       \<lparr>description = ''think'', subtasks = [], status = ''pending''\<rparr> 1 1 False)) = ''completed''
   \<and> \<not> success \<lparr>te_tool = ''shell_command'', te_args = [], success = False, te_result = []\<rparr>
   \<and> step_status [\<lparr>te_tool = ''web_search'', te_args = [], success = True, te_result = []\<rparr>,
                   \<lparr>te_tool = ''shell_command'', te_args = [], success = False, te_result = []\<rparr>]
       = ''failed''"
proof -
  let ?stp = "\<lparr>description = ''think'', subtasks = [], status = ''pending''\<rparr>"
  let ?tes = "[\<lparr>te_tool = ''web_search'', te_args = [], success = True, te_result = []\<rparr>,
               \<lparr>te_tool = ''shell_command'', te_args = [], success = False, te_result = []\<rparr>]"
  note T = execute_step_status [of ?tes "\<lambda>p. ''nothing to do''" "[]" ?stp 1 1 False]
  have calls: "find_tool_calls ''nothing to do'' = []"
    by (simp add: find_tool_calls_def lower_def lower_char_def)
  have e: "tool_executions (fst (execute_step (\<lambda>p. ''nothing to do'') [] ?stp 1 1 False)) = []"
    by (simp add: execute_step_def Let_def simulate_tool_execution_def calls)
  have f: "\<not> (\<forall>te \<in> set ?tes. success te)" by simp
  from T e f show ?thesis by simp
qed

text \<open>
  C4. Every record returned by \<open>_simulate_tool_execution\<close> has \<open>success\<close> true, for every
  text and either mode. Hence every result of \<open>execute_step\<close> is completed, the loop of
  \<open>execute_plan\<close> is never left through \<^verbatim>\<open>break\<close>, and \<open>execute_plan\<close> returns the overall
  status completed with one entry per step of the plan, numbered from 1 in plan order,
  each completed.
\<close>

theorem execute_plan_always_completed:
  "(\<forall>te \<in> set (simulate_tool_execution etext yolo_mode). success te)
   \<and> sr_status (fst (execute_step gc results stp n total_steps yolo_mode)) = ''completed''
   \<and> fst (snd (snd (execute_plan_loop (execute_step gc) (length plan) yolo_mode 0 plan results)))
       = False
   \<and> overall_status (fst (execute_plan gc plan yolo_mode results)) = ''completed''
   \<and> length (result_steps (fst (execute_plan gc plan yolo_mode results))) = length plan
   \<and> map step_num (result_steps (fst (execute_plan gc plan yolo_mode results)))
       = [1 ..< length plan + 1]
   \<and> map entry_description (result_steps (fst (execute_plan gc plan yolo_mode results)))
       = map description plan
   \<and> (\<forall>e \<in> set (result_steps (fst (execute_plan gc plan yolo_mode results))).
        entry_status e = ''completed'')"
proof -
  obtain entries plan1 stopped s1 where loop:
    "execute_plan_loop (execute_step gc) (length plan) yolo_mode 0 plan results
       = (entries, plan1, stopped, s1)"
    by (cases "execute_plan_loop (execute_step gc) (length plan) yolo_mode 0 plan results") auto
  note shape = execute_plan_loop_shape [OF loop]
  have "\<forall>e \<in> set entries. sr_status (entry_result e) = ''completed''"
    by (rule execute_plan_loop_results [OF _ loop]) (rule execute_step_completed)
  with shape have compl: "\<forall>e \<in> set entries. entry_status e = ''completed''" by simp
  have ns: "\<not> stopped"
  proof
    assume stopped
    with shape have "entries \<noteq> []" "entry_status (last entries) = ''failed''" by simp_all
    moreover from this(1) have "last entries \<in> set entries" by simp
    ultimately show False using compl by auto
  qed
  with shape have len: "length entries = length plan" by simp
  have res: "fst (execute_plan gc plan yolo_mode results)
      = \<lparr>result_steps = entries, overall_status = ''completed''\<rparr>"
    using ns by (simp add: execute_plan_def execute_plan_with_def loop Let_def)
  have nums: "map step_num entries = [1 ..< length plan + 1]"
    using shape len by simp
  have descs: "map entry_description entries = map description plan"
    using shape len by simp
  from simulate_tool_execution_success [of etext yolo_mode]
    execute_step_completed [of gc results stp n total_steps yolo_mode]
    ns len nums descs compl
  show ?thesis by (simp add: res loop)
qed

theorem execute_plan_always_completed_witness:
  "simulate_tool_execution ''Run the SHELL_COMMAND tool'' False =
     [\<lparr>te_tool = ''shell_command'', te_args = [(''command'', S ''ls -la'')], success = True,
       te_result = ''Simulated result for shell_command''\<rparr>]
   \<and> overall_status (fst (execute_plan (\<lambda>p. ''Run the SHELL_COMMAND tool'')
        [\<lparr>description = ''a'', subtasks = [], status = ''pending''\<rparr>,
         \<lparr>description = ''b'', subtasks = [''x''], status = ''pending''\<rparr>] False [])) = ''completed''
   \<and> length (result_steps (fst (execute_plan (\<lambda>p. ''Run the SHELL_COMMAND tool'')
        [\<lparr>description = ''a'', subtasks = [], status = ''pending''\<rparr>,
         \<lparr>description = ''b'', subtasks = [''x''], status = ''pending''\<rparr>] False []))) = 2"
proof -
  let ?plan = "[\<lparr>description = ''a'', subtasks = [], status = ''pending''\<rparr>,
                \<lparr>description = ''b'', subtasks = [''x''], status = ''pending''\<rparr>]"
  note T = execute_plan_always_completed [of "''Run the SHELL_COMMAND tool''" False
      "\<lambda>p. ''Run the SHELL_COMMAND tool''" "[]" "hd ?plan" 1 2 ?plan]
  have sim: "simulate_tool_execution ''Run the SHELL_COMMAND tool'' False =
     [\<lparr>te_tool = ''shell_command'', te_args = [(''command'', S ''ls -la'')], success = True,
       te_result = ''Simulated result for shell_command''\<rparr>]"
    by code_simp
  from T sim show ?thesis by simp
qed

text \<open>
  C3. \<open>execute_plan\<close> takes the steps strictly in plan order. Let the run in order be
  the list in which the j-th element is what the step executor returns for the j-th step
  of the plan, called with the ordinal j and the number of steps on the state left by the
  step before (the initial state for the first). The entries recorded are the first k
  elements of that run, numbered from 1, each with the description of its step, the
  result the executor returned for it and that result's status; the state returned is the
  one left by the k-th step, and the first k steps of the plan carry their statuses. With
  \<open>yolo_mode\<close> false, k counts the steps up to and including the first whose status is
  failed (all of them if none is): no entry before the last is failed, and the overall
  status is failed exactly when a step failed, which is then the last entry. With
  \<open>yolo_mode\<close> true, k is the length of the plan and the overall status is completed
  whatever the steps' statuses. For a plan of three steps whose second step fails: two
  entries and overall failed without \<open>yolo_mode\<close>, three entries and overall completed
  with it.
\<close>

theorem execute_plan_stops_at_first_failure:
  "(let outs = run_in_order exec (length plan) yolo_mode 0 plan s;
        k = steps_executed yolo_mode outs;
        R = execute_plan_with exec plan yolo_mode s
    in length outs = length plan
       \<and> (\<forall>j < length plan.
             outs ! j = exec (if j = 0 then s else snd (outs ! (j - 1))) (plan ! j) (j + 1)
                          (length plan) yolo_mode)
       \<and> k = (if yolo_mode then length plan
               else min (length plan)
                      (Suc (length (takeWhile (\<lambda>out. sr_status (fst out) \<noteq> ''failed'') outs))))
       \<and> length (result_steps (fst R)) = k
       \<and> (\<forall>j < k.
             result_steps (fst R) ! j =
               \<lparr>step_num = j + 1, entry_description = description (plan ! j),
                entry_result = fst (outs ! j), entry_status = sr_status (fst (outs ! j))\<rparr>)
       \<and> overall_status (fst R) =
           (if \<not> yolo_mode \<and> (\<exists>out \<in> set outs. sr_status (fst out) = ''failed'')
            then ''failed'' else ''completed'')
       \<and> fst (snd R) =
           map (\<lambda>(stp, out). stp\<lparr>status := sr_status (fst out)\<rparr>) (zip (take k plan) outs)
           @ drop k plan
       \<and> snd (snd R) = (if k = 0 then s else snd (outs ! (k - 1))))
   \<and> map step_num (result_steps (fst (execute_plan_with exec plan yolo_mode s)))
     = [1 ..< length (result_steps (fst (execute_plan_with exec plan yolo_mode s))) + 1]
   \<and> map entry_description (result_steps (fst (execute_plan_with exec plan yolo_mode s)))
     = map description
         (take (length (result_steps (fst (execute_plan_with exec plan yolo_mode s)))) plan)
   \<and> (\<forall>e \<in> set (result_steps (fst (execute_plan_with exec plan yolo_mode s))).
        entry_status e = sr_status (entry_result e))
   \<and> (\<not> yolo_mode \<longrightarrow>
        (\<forall>e \<in> set (butlast (result_steps (fst (execute_plan_with exec plan yolo_mode s)))).
           entry_status e \<noteq> ''failed'')
        \<and> (if result_steps (fst (execute_plan_with exec plan yolo_mode s)) \<noteq> []
              \<and> entry_status (last (result_steps (fst (execute_plan_with exec plan yolo_mode s))))
                 = ''failed''
           then overall_status (fst (execute_plan_with exec plan yolo_mode s)) = ''failed''
           else overall_status (fst (execute_plan_with exec plan yolo_mode s)) = ''completed''
                \<and> length (result_steps (fst (execute_plan_with exec plan yolo_mode s)))
                   = length plan))
   \<and> (yolo_mode \<longrightarrow>
        overall_status (fst (execute_plan_with exec plan yolo_mode s)) = ''completed''
        \<and> length (result_steps (fst (execute_plan_with exec plan yolo_mode s))) = length plan)
   \<and> length (result_steps (fst (execute_plan_with
        (\<lambda>u stp n total_steps yolo.
           (\<lparr>execution_text = [], tool_executions = [],
             sr_status = (if n = 2 then ''failed'' else ''completed''), summary = []\<rparr>, u))
        [\<lparr>description = ''A'', subtasks = [], status = ''pending''\<rparr>,
         \<lparr>description = ''B'', subtasks = [], status = ''pending''\<rparr>,
         \<lparr>description = ''C'', subtasks = [], status = ''pending''\<rparr>] False ()))) = 2
   \<and> overall_status (fst (execute_plan_with
        (\<lambda>u stp n total_steps yolo.
           (\<lparr>execution_text = [], tool_executions = [],
             sr_status = (if n = 2 then ''failed'' else ''completed''), summary = []\<rparr>, u))
        [\<lparr>description = ''A'', subtasks = [], status = ''pending''\<rparr>,
         \<lparr>description = ''B'', subtasks = [], status = ''pending''\<rparr>,
         \<lparr>description = ''C'', subtasks = [], status = ''pending''\<rparr>] False ())) = ''failed''
   \<and> length (result_steps (fst (execute_plan_with
        (\<lambda>u stp n total_steps yolo.
           (\<lparr>execution_text = [], tool_executions = [],
             sr_status = (if n = 2 then ''failed'' else ''completed''), summary = []\<rparr>, u))
        [\<lparr>description = ''A'', subtasks = [], status = ''pending''\<rparr>,
         \<lparr>description = ''B'', subtasks = [], status = ''pending''\<rparr>,
         \<lparr>description = ''C'', subtasks = [], status = ''pending''\<rparr>] True ()))) = 3
   \<and> overall_status (fst (execute_plan_with
        (\<lambda>u stp n total_steps yolo.
           (\<lparr>execution_text = [], tool_executions = [],
             sr_status = (if n = 2 then ''failed'' else ''completed''), summary = []\<rparr>, u))
        [\<lparr>description = ''A'', subtasks = [], status = ''pending''\<rparr>,
         \<lparr>description = ''B'', subtasks = [], status = ''pending''\<rparr>,
         \<lparr>description = ''C'', subtasks = [], status = ''pending''\<rparr>] True ())) = ''completed''"
proof -
  obtain entries plan1 stopped s1 where loop:
    "execute_plan_loop exec (length plan) yolo_mode 0 plan s = (entries, plan1, stopped, s1)"
    by (cases "execute_plan_loop exec (length plan) yolo_mode 0 plan s") auto
  note shape = execute_plan_loop_shape [OF loop]
  have res: "fst (execute_plan_with exec plan yolo_mode s)
      = \<lparr>result_steps = entries,
         overall_status = (if stopped then ''failed'' else ''completed'')\<rparr>"
    by (simp add: execute_plan_with_def loop Let_def)
  let ?R = "fst (execute_plan_with exec plan yolo_mode s)"
  have rs: "result_steps ?R = entries" by (simp add: res)
  have os: "overall_status ?R = (if stopped then ''failed'' else ''completed'')"
    by (simp add: res)
  have a: "map step_num (result_steps ?R) = [1 ..< length (result_steps ?R) + 1]"
    unfolding rs using shape by simp
  have b: "map entry_description (result_steps ?R)
      = map description (take (length (result_steps ?R)) plan)"
    unfolding rs using shape by simp
  have c: "\<forall>e \<in> set (result_steps ?R). entry_status e = sr_status (entry_result e)"
    unfolding rs using shape by blast
  have d1: "\<forall>e \<in> set (butlast (result_steps ?R)). entry_status e \<noteq> ''failed''"
    if "\<not> yolo_mode"
    unfolding rs using shape that by blast
  have d2: "if result_steps ?R \<noteq> [] \<and> entry_status (last (result_steps ?R)) = ''failed''
           then overall_status ?R = ''failed''
           else overall_status ?R = ''completed''
                \<and> length (result_steps ?R) = length plan"
    if ny: "\<not> yolo_mode"
  proof (cases stopped)
    case True
    with shape have "entries \<noteq> [] \<and> entry_status (last entries) = ''failed''" by blast
    with True show ?thesis unfolding rs os by simp
  next
    case False
    with ny shape have all: "\<forall>e \<in> set entries. entry_status e \<noteq> ''failed''"
      and len: "length entries = length plan" by blast+
    have "\<not> (entries \<noteq> [] \<and> entry_status (last entries) = ''failed'')"
      using all last_in_set [of entries] by auto
    with False len show ?thesis unfolding rs os by simp
  qed
  have e: "overall_status ?R = ''completed'' \<and> length (result_steps ?R) = length plan"
    if "yolo_mode"
  proof -
    from shape that have "\<not> stopped" and "length entries = length plan" by blast+
    then show ?thesis unfolding rs os by simp
  qed
  let ?exec = "\<lambda>(u::unit) (stp::step) (n::nat) (total_steps::nat) (yolo::bool).
           (\<lparr>execution_text = [], tool_executions = [],
             sr_status = (if n = 2 then ''failed'' else ''completed''), summary = []\<rparr>, u)"
  let ?plan = "[\<lparr>description = ''A'', subtasks = [], status = ''pending''\<rparr>,
         \<lparr>description = ''B'', subtasks = [], status = ''pending''\<rparr>,
         \<lparr>description = ''C'', subtasks = [], status = ''pending''\<rparr>]"
  have x1: "length (result_steps (fst (execute_plan_with ?exec ?plan False ()))) = 2"
    by (simp add: execute_plan_with_def Let_def)
  have x2: "overall_status (fst (execute_plan_with ?exec ?plan False ())) = ''failed''"
    by (simp add: execute_plan_with_def Let_def)
  have x3: "length (result_steps (fst (execute_plan_with ?exec ?plan True ()))) = 3"
    by (simp add: execute_plan_with_def Let_def)
  have x4: "overall_status (fst (execute_plan_with ?exec ?plan True ())) = ''completed''"
    by (simp add: execute_plan_with_def Let_def)
  from d1 d2 have d: "\<not> yolo_mode \<longrightarrow>
        (\<forall>e \<in> set (butlast (result_steps ?R)). entry_status e \<noteq> ''failed'')
        \<and> (if result_steps ?R \<noteq> [] \<and> entry_status (last (result_steps ?R)) = ''failed''
           then overall_status ?R = ''failed''
           else overall_status ?R = ''completed''
                \<and> length (result_steps ?R) = length plan)"
    by blast
  from e have e': "yolo_mode \<longrightarrow>
        overall_status ?R = ''completed'' \<and> length (result_steps ?R) = length plan"
    by blast
  let ?outs = "run_in_order exec (length plan) yolo_mode 0 plan s"
  let ?k = "steps_executed yolo_mode ?outs"
  have len: "length ?outs = length plan" by (rule run_in_order_length)
  have kle: "?k \<le> length ?outs" by (rule steps_executed_le)
  have run: "\<forall>j < length plan.
      ?outs ! j = exec (if j = 0 then s else snd (?outs ! (j - 1))) (plan ! j) (j + 1)
                    (length plan) yolo_mode"
    using run_in_order_nth [of _ plan exec "length plan" yolo_mode 0 s] by simp
  have kdef: "?k = (if yolo_mode then length plan
               else min (length plan)
                      (Suc (length (takeWhile (\<lambda>out. sr_status (fst out) \<noteq> ''failed'') ?outs))))"
    by (simp add: steps_executed_def run_in_order_length)
  have rs': "result_steps ?R =
      map (\<lambda>(n, stp, out). \<lparr>step_num = n, entry_description = description stp,
                              entry_result = fst out, entry_status = sr_status (fst out)\<rparr>)
        (zip [1 ..< 1 + ?k] (zip plan ?outs))"
    by (simp only: execute_plan_with_run fst_conv plan_results.select_convs)
  have nlen: "length (result_steps ?R) = ?k"
    unfolding rs' by (rule entries_length [OF kle len])
  have nnth: "\<forall>j < ?k. result_steps ?R ! j =
      \<lparr>step_num = j + 1, entry_description = description (plan ! j),
       entry_result = fst (?outs ! j), entry_status = sr_status (fst (?outs ! j))\<rparr>"
    unfolding rs' using entries_nth [OF kle len] by blast
  have nov: "overall_status ?R =
      (if \<not> yolo_mode \<and> (\<exists>out \<in> set ?outs. sr_status (fst out) = ''failed'')
       then ''failed'' else ''completed'')"
    by (simp only: execute_plan_with_run fst_conv plan_results.select_convs)
  have npl: "fst (snd (execute_plan_with exec plan yolo_mode s)) =
      map (\<lambda>(stp, out). stp\<lparr>status := sr_status (fst out)\<rparr>) (zip (take ?k plan) ?outs)
      @ drop ?k plan"
    by (simp only: execute_plan_with_run fst_conv snd_conv)
  have nst: "snd (snd (execute_plan_with exec plan yolo_mode s)) =
      (if ?k = 0 then s else snd (?outs ! (?k - 1)))"
    by (simp only: execute_plan_with_run snd_conv)
  have n: "let outs = run_in_order exec (length plan) yolo_mode 0 plan s;
        k = steps_executed yolo_mode outs;
        R = execute_plan_with exec plan yolo_mode s
    in length outs = length plan
       \<and> (\<forall>j < length plan.
             outs ! j = exec (if j = 0 then s else snd (outs ! (j - 1))) (plan ! j) (j + 1)
                          (length plan) yolo_mode)
       \<and> k = (if yolo_mode then length plan
               else min (length plan)
                      (Suc (length (takeWhile (\<lambda>out. sr_status (fst out) \<noteq> ''failed'') outs))))
       \<and> length (result_steps (fst R)) = k
       \<and> (\<forall>j < k.
             result_steps (fst R) ! j =
               \<lparr>step_num = j + 1, entry_description = description (plan ! j),
                entry_result = fst (outs ! j), entry_status = sr_status (fst (outs ! j))\<rparr>)
       \<and> overall_status (fst R) =
           (if \<not> yolo_mode \<and> (\<exists>out \<in> set outs. sr_status (fst out) = ''failed'')
            then ''failed'' else ''completed'')
       \<and> fst (snd R) =
           map (\<lambda>(stp, out). stp\<lparr>status := sr_status (fst out)\<rparr>) (zip (take k plan) outs)
           @ drop k plan
       \<and> snd (snd R) = (if k = 0 then s else snd (outs ! (k - 1)))"
    unfolding Let_def
    by (intro conjI) (rule len run kdef nlen nnth nov npl nst)+
  show ?thesis
    by (intro conjI) (rule n a b c d e' x1 x2 x3 x4)+
qed

theorem execute_plan_stops_at_first_failure_witness:
  "map entry_status (result_steps (fst (execute_plan_with
        (\<lambda>u stp n total_steps yolo.
           (\<lparr>execution_text = [], tool_executions = [],
             sr_status = (if n = 2 then ''failed'' else ''completed''), summary = []\<rparr>, u))
        [\<lparr>description = ''A'', subtasks = [], status = ''pending''\<rparr>,
         \<lparr>description = ''B'', subtasks = [], status = ''pending''\<rparr>,
         \<lparr>description = ''C'', subtasks = [], status = ''pending''\<rparr>] False ())))
     = [''completed'', ''failed'']
   \<and> map status (fst (snd (execute_plan_with
        (\<lambda>u stp n total_steps yolo.
           (\<lparr>execution_text = [], tool_executions = [],
             sr_status = (if n = 2 then ''failed'' else ''completed''), summary = []\<rparr>, u))
        [\<lparr>description = ''A'', subtasks = [], status = ''pending''\<rparr>,
         \<lparr>description = ''B'', subtasks = [], status = ''pending''\<rparr>,
         \<lparr>description = ''C'', subtasks = [], status = ''pending''\<rparr>] False ())))
     = [''completed'', ''failed'', ''pending'']
   \<and> overall_status (fst (execute_plan_with
        (\<lambda>u stp n total_steps yolo.
           (\<lparr>execution_text = [], tool_executions = [],
             sr_status = (if n = 2 then ''failed'' else ''completed''), summary = []\<rparr>, u))
        [\<lparr>description = ''A'', subtasks = [], status = ''pending''\<rparr>,
         \<lparr>description = ''B'', subtasks = [], status = ''pending''\<rparr>,
         \<lparr>description = ''C'', subtasks = [], status = ''pending''\<rparr>] False ())) = ''failed''
   \<and> map entry_status (result_steps (fst (execute_plan_with
        (\<lambda>u stp n total_steps yolo.
           (\<lparr>execution_text = [], tool_executions = [],
             sr_status = (if n = 2 then ''failed'' else ''completed''), summary = []\<rparr>, u))
        [\<lparr>description = ''A'', subtasks = [], status = ''pending''\<rparr>,
         \<lparr>description = ''B'', subtasks = [], status = ''pending''\<rparr>,
         \<lparr>description = ''C'', subtasks = [], status = ''pending''\<rparr>] True ())))
     = [''completed'', ''failed'', ''completed'']
   \<and> overall_status (fst (execute_plan_with
        (\<lambda>u stp n total_steps yolo.
           (\<lparr>execution_text = [], tool_executions = [],
             sr_status = (if n = 2 then ''failed'' else ''completed''), summary = []\<rparr>, u))
        [\<lparr>description = ''A'', subtasks = [], status = ''pending''\<rparr>,
         \<lparr>description = ''B'', subtasks = [], status = ''pending''\<rparr>,
         \<lparr>description = ''C'', subtasks = [], status = ''pending''\<rparr>] True ())) = ''completed''
   \<and> result_steps (fst (execute_plan_with
        (\<lambda>u stp n total_steps yolo.
           (\<lparr>execution_text = [], tool_executions = [],
             sr_status = (if n = 2 then ''failed'' else ''completed''), summary = []\<rparr>, u))
        [\<lparr>description = ''A'', subtasks = [], status = ''pending''\<rparr>,
         \<lparr>description = ''B'', subtasks = [], status = ''pending''\<rparr>,
         \<lparr>description = ''C'', subtasks = [], status = ''pending''\<rparr>] False ())) ! 1
     = \<lparr>step_num = 2, entry_description = ''B'',
        entry_result = \<lparr>execution_text = [], tool_executions = [],
                         sr_status = ''failed'', summary = []\<rparr>,
        entry_status = ''failed''\<rparr>"
proof -
  let ?exec = "\<lambda>(u::unit) (stp::step) (n::nat) (total_steps::nat) (yolo::bool).
           (\<lparr>execution_text = [], tool_executions = [],
             sr_status = (if n = 2 then ''failed'' else ''completed''), summary = []\<rparr>, u)"
  let ?plan = "[\<lparr>description = ''A'', subtasks = [], status = ''pending''\<rparr>,
         \<lparr>description = ''B'', subtasks = [], status = ''pending''\<rparr>,
         \<lparr>description = ''C'', subtasks = [], status = ''pending''\<rparr>]"
  have st1: "map entry_status (result_steps (fst (execute_plan_with ?exec ?plan False ())))
      = [''completed'', ''failed'']"
    by (simp add: execute_plan_with_def Let_def)
  have pl1: "map status (fst (snd (execute_plan_with ?exec ?plan False ())))
      = [''completed'', ''failed'', ''pending'']"
    by (simp add: execute_plan_with_def Let_def)
  have st2: "map entry_status (result_steps (fst (execute_plan_with ?exec ?plan True ())))
      = [''completed'', ''failed'', ''completed'']"
    by (simp add: execute_plan_with_def Let_def)
  from execute_plan_stops_at_first_failure [of ?exec ?plan False "()"]
  have o1: "overall_status (fst (execute_plan_with ?exec ?plan False ())) = ''failed''"
    by blast
  from execute_plan_stops_at_first_failure [of ?exec ?plan True "()"]
  have o2: "overall_status (fst (execute_plan_with ?exec ?plan True ())) = ''completed''"
    by blast
  have k: "steps_executed False (run_in_order ?exec (length ?plan) False 0 ?plan ()) = 2"
    by (simp add: steps_executed_def)
  have out: "fst (run_in_order ?exec (length ?plan) False 0 ?plan () ! 1) =
      \<lparr>execution_text = [], tool_executions = [], sr_status = ''failed'', summary = []\<rparr>"
    by simp
  from execute_plan_stops_at_first_failure [of ?exec ?plan False "()"]
  have "\<forall>j < steps_executed False (run_in_order ?exec (length ?plan) False 0 ?plan ()).
      result_steps (fst (execute_plan_with ?exec ?plan False ())) ! j =
        \<lparr>step_num = j + 1, entry_description = description (?plan ! j),
         entry_result = fst (run_in_order ?exec (length ?plan) False 0 ?plan () ! j),
         entry_status = sr_status (fst (run_in_order ?exec (length ?plan) False 0 ?plan () ! j))\<rparr>"
    unfolding Let_def by blast
  then have "result_steps (fst (execute_plan_with ?exec ?plan False ())) ! 1 =
        \<lparr>step_num = 1 + 1, entry_description = description (?plan ! 1),
         entry_result = fst (run_in_order ?exec (length ?plan) False 0 ?plan () ! 1),
         entry_status = sr_status (fst (run_in_order ?exec (length ?plan) False 0 ?plan () ! 1))\<rparr>"
    unfolding k by (rule allE [of _ 1]) simp
  then have e2: "result_steps (fst (execute_plan_with ?exec ?plan False ())) ! 1 =
      \<lparr>step_num = 2, entry_description = ''B'',
       entry_result = \<lparr>execution_text = [], tool_executions = [],
                        sr_status = ''failed'', summary = []\<rparr>,
       entry_status = ''failed''\<rparr>"
    unfolding out by simp
  from st1 pl1 st2 o1 o2 e2 show ?thesis by blast
qed

section \<open>Properties of the file manager\<close>

lemma node_at_root: "node_at fs [] = Some Dir"
  by (simp add: node_at_def)

lemma node_at_delete:
  "node_at (fs\<lparr>nodes := AList.delete k (nodes fs)\<rparr>) cur =
     (if cur = [] then Some Dir else if cur = k then None else node_at fs cur)"
  by (simp add: node_at_def delete_conv')

lemma walk_delete_file:
  assumes "node_at fs k = Some (File c)"
  shows "walk (fs\<lparr>nodes := AList.delete k (nodes fs)\<rparr>) cur cs = walk fs cur cs"
proof (induction cs arbitrary: cur)
  case Nil
  then show ?case by simp
next
  case (Cons x xs)
  have "node_at (fs\<lparr>nodes := AList.delete k (nodes fs)\<rparr>) cur = Some Dir
          \<longleftrightarrow> node_at fs cur = Some Dir"
    using assms node_at_root [of fs] by (auto simp: node_at_delete)
  with Cons.IH show ?case by simp
qed

lemma resolve_delete_file:
  assumes "node_at fs k = Some (File c)"
  shows "resolve (fs\<lparr>nodes := AList.delete k (nodes fs)\<rparr>) p = resolve fs p"
  by (simp add: resolve_def walk_delete_file [OF assms])

lemma existing_file:
  assumes "os_path_exists fs p" and "\<not> os_path_isdir fs p"
  shows "\<exists>k c. resolve fs p = Some k \<and> node_at fs k = Some (File c) \<and> k \<noteq> []"
proof -
  from assms(1) obtain k n where k: "resolve fs p = Some k" "node_at fs k = Some n"
    by (auto simp: os_path_exists_def lookup_path_def split: option.splits)
  with assms(2) obtain c where "n = File c"
    by (cases n) (auto simp: os_path_isdir_def lookup_path_def)
  with k have "node_at fs k = Some (File c)" by simp
  moreover from this have "k \<noteq> []" by (auto simp: node_at_def)
  ultimately show ?thesis using k(1) by blast
qed

lemma file_delete_missing:
  "\<not> os_path_exists fs full_path \<Longrightarrow>
   file_delete fs path full_path =
     (Inr [(''success'', B False), (''path'', S path), (''error'', S ''File does not exist'')],
      fs, [Exists full_path])"
  by (simp add: file_delete_def)

lemma file_delete_directory:
  "os_path_isdir fs full_path \<Longrightarrow>
   file_delete fs path full_path =
     (Inr [(''success'', B False), (''path'', S path),
           (''error'', S ''Cannot delete directories'')],
      fs, [Exists full_path, IsDir full_path])"
  by (simp add: file_delete_def os_path_isdir_def os_path_exists_def)

lemma file_delete_file:
  assumes "os_path_exists fs full_path" and "\<not> os_path_isdir fs full_path"
  shows "\<exists>k. resolve fs full_path = Some k
           \<and> file_delete fs path full_path =
               (Inr [(''success'', B True), (''path'', S path), (''action'', S ''delete'')],
                fs\<lparr>nodes := AList.delete k (nodes fs)\<rparr>,
                [Exists full_path, IsDir full_path, Unlink full_path])
           \<and> \<not> os_path_exists (fs\<lparr>nodes := AList.delete k (nodes fs)\<rparr>) full_path"
proof -
  from existing_file [OF assms] obtain k c where
    k: "resolve fs full_path = Some k" "node_at fs k = Some (File c)" "k \<noteq> []" by blast
  let ?fs1 = "fs\<lparr>nodes := AList.delete k (nodes fs)\<rparr>"
  from k have u: "os_unlink fs full_path = Inr ?fs1" by (simp add: os_unlink_def)
  have "resolve ?fs1 full_path = Some k"
    using resolve_delete_file [OF k(2)] k(1) by simp
  moreover have "node_at ?fs1 k = None" using k(3) by (simp add: node_at_delete)
  ultimately have gone: "\<not> os_path_exists ?fs1 full_path"
    by (simp add: os_path_exists_def lookup_path_def)
  from assms u have "file_delete fs path full_path =
      (Inr [(''success'', B True), (''path'', S path), (''action'', S ''delete'')],
       ?fs1, [Exists full_path, IsDir full_path, Unlink full_path])"
    by (simp add: file_delete_def)
  with k(1) gone show ?thesis by blast
qed

lemma manage_file_delete_eq:
  assumes "prefix (normpath working_dir) (normpath (os_path_join working_dir path))"
  shows "manage_file_try working_dir fs ''delete'' path content =
           file_delete fs path (os_path_join working_dir path)"
  using assms by (simp add: manage_file_try_def Let_def)

text \<open>
  C9. For a path that passes the working-directory check, the action delete returns a
  failure value and leaves the file system as it was when the resolved path does not
  exist (File does not exist) and when it is a directory (Cannot delete directories; no
  removal is attempted). Otherwise the resolved path is a file: it is removed, nothing
  else in the file system changes, the path no longer exists afterwards, and success is
  reported.
\<close>

theorem manage_file_delete:
  assumes "prefix (normpath working_dir) (normpath (os_path_join working_dir path))"
  shows "(\<not> os_path_exists fs (os_path_join working_dir path) \<longrightarrow>
            manage_file working_dir fs ''delete'' path content =
              ([(''success'', B False), (''path'', S path), (''error'', S ''File does not exist'')],
               fs, [Exists (os_path_join working_dir path)]))
       \<and> (os_path_isdir fs (os_path_join working_dir path) \<longrightarrow>
            manage_file working_dir fs ''delete'' path content =
              ([(''success'', B False), (''path'', S path),
                (''error'', S ''Cannot delete directories'')],
               fs, [Exists (os_path_join working_dir path), IsDir (os_path_join working_dir path)]))
       \<and> (os_path_exists fs (os_path_join working_dir path)
            \<and> \<not> os_path_isdir fs (os_path_join working_dir path) \<longrightarrow>
            (\<exists>k. resolve fs (os_path_join working_dir path) = Some k
               \<and> manage_file working_dir fs ''delete'' path content =
                   ([(''success'', B True), (''path'', S path), (''action'', S ''delete'')],
                    fs\<lparr>nodes := AList.delete k (nodes fs)\<rparr>,
                    [Exists (os_path_join working_dir path), IsDir (os_path_join working_dir path),
                     Unlink (os_path_join working_dir path)])
               \<and> \<not> os_path_exists (fs\<lparr>nodes := AList.delete k (nodes fs)\<rparr>)
                     (os_path_join working_dir path)))"
proof -
  let ?full = "os_path_join working_dir path"
  note eq = manage_file_delete_eq [OF assms, of fs content]
  have a: "manage_file working_dir fs ''delete'' path content =
      ([(''success'', B False), (''path'', S path), (''error'', S ''File does not exist'')],
       fs, [Exists ?full])"
    if "\<not> os_path_exists fs ?full"
    using file_delete_missing [OF that, of path] by (simp add: manage_file_def eq)
  have b: "manage_file working_dir fs ''delete'' path content =
      ([(''success'', B False), (''path'', S path), (''error'', S ''Cannot delete directories'')],
       fs, [Exists ?full, IsDir ?full])"
    if "os_path_isdir fs ?full"
    using file_delete_directory [OF that, of path] by (simp add: manage_file_def eq)
  have c: "\<exists>k. resolve fs ?full = Some k
        \<and> manage_file working_dir fs ''delete'' path content =
            ([(''success'', B True), (''path'', S path), (''action'', S ''delete'')],
             fs\<lparr>nodes := AList.delete k (nodes fs)\<rparr>,
             [Exists ?full, IsDir ?full, Unlink ?full])
        \<and> \<not> os_path_exists (fs\<lparr>nodes := AList.delete k (nodes fs)\<rparr>) ?full"
    if "os_path_exists fs ?full \<and> \<not> os_path_isdir fs ?full"
  proof -
    from that file_delete_file [of fs ?full path] obtain k where
      k: "resolve fs ?full = Some k"
         "file_delete fs path ?full =
            (Inr [(''success'', B True), (''path'', S path), (''action'', S ''delete'')],
             fs\<lparr>nodes := AList.delete k (nodes fs)\<rparr>, [Exists ?full, IsDir ?full, Unlink ?full])"
         "\<not> os_path_exists (fs\<lparr>nodes := AList.delete k (nodes fs)\<rparr>) ?full"
      by blast
    from k(2) have "manage_file working_dir fs ''delete'' path content =
            ([(''success'', B True), (''path'', S path), (''action'', S ''delete'')],
             fs\<lparr>nodes := AList.delete k (nodes fs)\<rparr>, [Exists ?full, IsDir ?full, Unlink ?full])"
      by (simp add: manage_file_def eq)
    with k(1,3) show ?thesis by blast
  qed
  from a b c show ?thesis by blast
qed

theorem manage_file_delete_witness:
  "prefix (normpath ''/home/user'') (normpath (os_path_join ''/home/user'' ''somedir''))
   \<and> os_path_isdir example_fs (os_path_join ''/home/user'' ''somedir'')
   \<and> manage_file ''/home/user'' example_fs ''delete'' ''somedir'' None =
       ([(''success'', B False), (''path'', S ''somedir''),
         (''error'', S ''Cannot delete directories'')],
        example_fs, [Exists ''/home/user/somedir'', IsDir ''/home/user/somedir''])
   \<and> prefix (normpath ''/home/user'') (normpath (os_path_join ''/home/user'' ''notes.txt''))
   \<and> os_path_exists example_fs (os_path_join ''/home/user'' ''notes.txt'')
   \<and> \<not> os_path_isdir example_fs (os_path_join ''/home/user'' ''notes.txt'')
   \<and> fst (manage_file ''/home/user'' example_fs ''delete'' ''notes.txt'' None) =
       [(''success'', B True), (''path'', S ''notes.txt''), (''action'', S ''delete'')]
   \<and> \<not> os_path_exists (fst (snd (manage_file ''/home/user'' example_fs ''delete'' ''notes.txt'' None)))
         (os_path_join ''/home/user'' ''notes.txt'')
   \<and> \<not> os_path_exists example_fs (os_path_join ''/home/user'' ''nope'')
   \<and> fst (manage_file ''/home/user'' example_fs ''delete'' ''nope'' None) =
       [(''success'', B False), (''path'', S ''nope''), (''error'', S ''File does not exist'')]"
proof -
  have j1: "os_path_join ''/home/user'' ''somedir'' = ''/home/user/somedir''"
    by code_simp
  have g1: "prefix (normpath ''/home/user'') (normpath (os_path_join ''/home/user'' ''somedir''))"
    by code_simp
  have d1: "os_path_isdir example_fs (os_path_join ''/home/user'' ''somedir'')"
    by code_simp
  have g2: "prefix (normpath ''/home/user'') (normpath (os_path_join ''/home/user'' ''notes.txt''))"
    by code_simp
  have e2: "os_path_exists example_fs (os_path_join ''/home/user'' ''notes.txt'')"
    by code_simp
  have d2: "\<not> os_path_isdir example_fs (os_path_join ''/home/user'' ''notes.txt'')"
    by code_simp
  have g3: "prefix (normpath ''/home/user'') (normpath (os_path_join ''/home/user'' ''nope''))"
    by code_simp
  have e3: "\<not> os_path_exists example_fs (os_path_join ''/home/user'' ''nope'')"
    by code_simp
  from manage_file_delete [OF g1, of example_fs None] d1
  have r1: "manage_file ''/home/user'' example_fs ''delete'' ''somedir'' None =
       ([(''success'', B False), (''path'', S ''somedir''),
         (''error'', S ''Cannot delete directories'')],
        example_fs, [Exists ''/home/user/somedir'', IsDir ''/home/user/somedir''])"
    unfolding j1 by blast
  from manage_file_delete [OF g2, of example_fs None] e2 d2
  have r2: "fst (manage_file ''/home/user'' example_fs ''delete'' ''notes.txt'' None) =
       [(''success'', B True), (''path'', S ''notes.txt''), (''action'', S ''delete'')]
     \<and> \<not> os_path_exists (fst (snd (manage_file ''/home/user'' example_fs ''delete'' ''notes.txt'' None)))
         (os_path_join ''/home/user'' ''notes.txt'')"
    by auto
  from manage_file_delete [OF g3, of example_fs None] e3
  have r3: "fst (manage_file ''/home/user'' example_fs ''delete'' ''nope'' None) =
       [(''success'', B False), (''path'', S ''nope''), (''error'', S ''File does not exist'')]"
    by simp
  from g1 d1 r1 g2 e2 d2 r2 e3 r3 show ?thesis by blast
qed

text \<open>
  C1. \<open>manage_file\<close> joins the path to the working directory, normalises both and goes
  on only if the normalised path begins with the normalised root; the source states the
  purpose of this test as making sure the path is within the working directory. The test
  compares strings, not path names, so it does not keep paths within the root. With the
  root \<^verbatim>\<open>/home/user\<close> the path \<^verbatim>\<open>../user2/secret\<close> normalises to \<^verbatim>\<open>/home/user2/secret\<close>,
  which is not within the root and begins with its characters: the action read calls the
  file system on it and returns the text of the file, and the action delete removes the
  file.
\<close>

theorem manage_file_reads_outside_root:
  "normpath (os_path_join ''/home/user'' ''../user2/secret'') = ''/home/user2/secret''
   \<and> \<not> path_within ''/home/user'' (os_path_join ''/home/user'' ''../user2/secret'')
   \<and> prefix (normpath ''/home/user'') (normpath (os_path_join ''/home/user'' ''../user2/secret''))
   \<and> manage_file ''/home/user'' example_fs ''read'' ''../user2/secret'' None =
       ([(''success'', B True), (''path'', S ''../user2/secret''), (''is_directory'', B False),
         (''content'', S ''s3cret'')],
        example_fs,
        [Exists ''/home/user/../user2/secret'', IsDir ''/home/user/../user2/secret'',
         OpenRead ''/home/user/../user2/secret''])
   \<and> fst (manage_file ''/home/user'' example_fs ''delete'' ''../user2/secret'' None) =
       [(''success'', B True), (''path'', S ''../user2/secret''), (''action'', S ''delete'')]
   \<and> snd (snd (manage_file ''/home/user'' example_fs ''delete'' ''../user2/secret'' None)) =
       [Exists ''/home/user/../user2/secret'', IsDir ''/home/user/../user2/secret'',
        Unlink ''/home/user/../user2/secret'']
   \<and> os_path_exists example_fs ''/home/user2/secret''
   \<and> \<not> os_path_exists
         (fst (snd (manage_file ''/home/user'' example_fs ''delete'' ''../user2/secret'' None)))
         ''/home/user2/secret''"
proof -
  have a: "normpath (os_path_join ''/home/user'' ''../user2/secret'') = ''/home/user2/secret''"
    by code_simp
  have b: "\<not> path_within ''/home/user'' (os_path_join ''/home/user'' ''../user2/secret'')"
    by code_simp
  have c: "prefix (normpath ''/home/user'')
             (normpath (os_path_join ''/home/user'' ''../user2/secret''))"
    by code_simp
  have d: "manage_file ''/home/user'' example_fs ''read'' ''../user2/secret'' None =
       ([(''success'', B True), (''path'', S ''../user2/secret''), (''is_directory'', B False),
         (''content'', S ''s3cret'')],
        example_fs,
        [Exists ''/home/user/../user2/secret'', IsDir ''/home/user/../user2/secret'',
         OpenRead ''/home/user/../user2/secret''])"
    by code_simp
  have e: "fst (manage_file ''/home/user'' example_fs ''delete'' ''../user2/secret'' None) =
       [(''success'', B True), (''path'', S ''../user2/secret''), (''action'', S ''delete'')]"
    by code_simp
  have f: "snd (snd (manage_file ''/home/user'' example_fs ''delete'' ''../user2/secret'' None)) =
       [Exists ''/home/user/../user2/secret'', IsDir ''/home/user/../user2/secret'',
        Unlink ''/home/user/../user2/secret'']"
    by code_simp
  have g: "os_path_exists example_fs ''/home/user2/secret''"
    by code_simp
  have h: "\<not> os_path_exists
         (fst (snd (manage_file ''/home/user'' example_fs ''delete'' ''../user2/secret'' None)))
         ''/home/user2/secret''"
    by code_simp
  from a b c d e f g h show ?thesis by blast
qed

end
